theory Spec2Isabelle
  imports Main "HOL-Library.Word"
begin

section \<open>Levels\<close>

text \<open>
  \<^verbatim>\<open>type Level int8\<close>: a signed 8-bit integer. The six constants are conversions of the
  logging library's level constants, whose numeric values are fixed by the library:
  debug 0, info 1, warn 2, error 3, fatal 4, panic 5; the library also has
  NoLevel 6, Disabled 7 and TraceLevel -1. Go compares \<^verbatim>\<open>int8\<close> values as signed numbers.
\<close>

type_synonym Level = "8 word"

definition DebugLevel :: Level where "DebugLevel = 0"
definition InfoLevel :: Level where "InfoLevel = 1"
definition WarnLevel :: Level where "WarnLevel = 2"
definition ErrorLevel :: Level where "ErrorLevel = 3"
definition FatalLevel :: Level where "FatalLevel = 4"
definition PanicLevel :: Level where "PanicLevel = 5"
definition NoLevel :: Level where "NoLevel = 6"
definition Disabled :: Level where "Disabled = 7"
definition TraceLevel :: Level where "TraceLevel = - 1"

definition minAllowedLevel :: Level where "minAllowedLevel = DebugLevel"
definition maxAllowedLevel :: Level where "maxAllowedLevel = PanicLevel"

section \<open>Error values\<close>

text \<open>
  A call site is a function name with a line. Go error values, as far as the facade
  meets them: a plain error with a message (\<^verbatim>\<open>errors.New\<close>, \<^verbatim>\<open>fmt.Errorf\<close> without
  \<^verbatim>\<open>%w\<close>), an error of \<^verbatim>\<open>github.com/pkg/errors\<close>, which records the call stack of the
  place that created it, and the wrapper that \<^verbatim>\<open>fmt.Errorf\<close> builds for \<^verbatim>\<open>%w\<close>, which
  has a message of its own and the wrapped error as its cause.
\<close>

type_synonym site = "string \<times> nat"

datatype error =
    errorString string
  | fundamental string "site list"
  | wrapError string error

fun Error_msg :: "error \<Rightarrow> string" where
  "Error_msg (errorString m) = m"
| "Error_msg (fundamental m st) = m"
| "Error_msg (wrapError m e) = m"

fun Unwrap :: "error \<Rightarrow> error option" where
  "Unwrap (errorString m) = None"
| "Unwrap (fundamental m st) = None"
| "Unwrap (wrapError m e) = Some e"

definition quoted :: "string \<Rightarrow> string" where
  "quoted s = [CHR 0x22] @ s @ [CHR 0x22]"

text \<open>\<^verbatim>\<open>fmt.Errorf("cannot parse log level \"%s\" %w", levelStr, err)\<close>\<close>

definition Errorf_cannot_parse :: "string \<Rightarrow> error \<Rightarrow> error" where
  "Errorf_cannot_parse levelStr err =
     wrapError (''cannot parse log level '' @ quoted levelStr @ '' '' @ Error_msg err) err"

section \<open>ParseLevel\<close>

text \<open>
  The level-name parser of the library is a parameter: it returns a level and an
  error, as the Go function does. \<^verbatim>\<open>ParseLevel\<close> returns its pair and the lines it
  printed with \<^verbatim>\<open>fmt.Printf\<close>.
\<close>

type_synonym level_parser = "string \<Rightarrow> Level \<times> error option"

definition ParseLevel :: "level_parser \<Rightarrow> string \<Rightarrow> (Level \<times> error option) \<times> string list" where
  "ParseLevel zerolog_ParseLevel levelStr =
     (case zerolog_ParseLevel levelStr of
        (zeroLevel, Some err) \<Rightarrow> ((ErrorLevel, Some (Errorf_cannot_parse levelStr err)), [])
      | (zeroLevel, None) \<Rightarrow>
          (let level = zeroLevel in
           if level <s minAllowedLevel then
             ((minAllowedLevel, None),
              [''log level '' @ quoted levelStr @ '' less than min allowed'' @ [CHR 0x0A]])
           else if maxAllowedLevel <s level then
             ((maxAllowedLevel, None),
              [''log level '' @ quoted levelStr @ '' greater than max allowed'' @ [CHR 0x0A]])
           else ((level, None), [])))"

text \<open>
  A level-name parser for concrete inputs. It is not the library's parser: it reads
  only the lower-case level names, to the levels the library gives them, and rejects
  every other string with an error of its own.
\<close>

definition sample_parser :: level_parser where
  "sample_parser s =
     (if s = ''trace'' then (TraceLevel, None)
      else if s = ''debug'' then (DebugLevel, None)
      else if s = ''info'' then (InfoLevel, None)
      else if s = ''warn'' then (WarnLevel, None)
      else if s = ''error'' then (ErrorLevel, None)
      else if s = ''fatal'' then (FatalLevel, None)
      else if s = ''panic'' then (PanicLevel, None)
      else if s = ''disabled'' then (Disabled, None)
      else (NoLevel, Some (errorString (''Unknown Level String: '' @ s))))"

section \<open>The logging library\<close>

text \<open>
  The facade delegates every event to the zerolog library, which is not part of this
  repository. This section models the library calls that the facade makes, after the
  library's behaviour in its releases 1.33 and later (with the stack marshaler of its
  package pkgerrors): a logger value holds a writer, a minimum level, the
  fields accumulated by \<^verbatim>\<open>With\<close> and its hooks; an event is built field by field and
  written by \<^verbatim>\<open>Msg\<close>; every method of a nil event is a no-op.
\<close>

text \<open>
  Values of \<^verbatim>\<open>interface{}\<close> passed as keys and field values: strings, numbers, nil
  and error values.
\<close>

datatype iface = Str string | Num int | Nil | ErrV error

text \<open>
  The library's reading of a variadic field list: a trailing odd element is dropped, a
  pair whose key is not a string is skipped.
\<close>

fun kv_pairs :: "iface list \<Rightarrow> (string \<times> iface) list" where
  "kv_pairs (Str k # v # rest) = (k, v) # kv_pairs rest"
| "kv_pairs (k # v # rest) = kv_pairs rest"
| "kv_pairs rest = []"

datatype dest = Stdout | File nat

datatype format = JSON | Console

text \<open>
  Writers: \<^verbatim>\<open>os.Stdout\<close> and an \<^verbatim>\<open>*os.File\<close> receive the structured line, a
  \<^verbatim>\<open>ConsoleWriter\<close> formats it as text for its target, a \<^verbatim>\<open>MultiLevelWriter\<close> hands the
  event to each of its writers. \<^verbatim>\<open>Discard\<close> is the writer of the library's disabled logger.
\<close>

datatype writer = Discard | Out dest | ConsoleWriter writer | MultiLevelWriter "writer list"

fun deliveries :: "writer \<Rightarrow> (dest \<times> format) list" where
  "deliveries Discard = []"
| "deliveries (Out d) = [(d, JSON)]"
| "deliveries (ConsoleWriter wr) = map (\<lambda>(d, f). (d, Console)) (deliveries wr)"
| "deliveries (MultiLevelWriter ws) = concat (map deliveries ws)"

datatype hook = timestampHook

record zlogger =
  zl_w :: writer
  zl_level :: Level
  zl_context :: "(string \<times> iface) list"
  zl_hooks :: "hook list"

text \<open>
  What an event carries besides its level and message, in the order of attachment. A
  stack field is \<open>StackF\<close> with the marshalled stack, or \<open>StackKeyF\<close> when the key was
  written and the marshaler gave nothing to put after it. The time of day is not
  modelled: a timestamp is the mark \<open>TimeF\<close>.
\<close>

datatype attachment =
    Field string iface
  | StackF "site list"
  | StackKeyF
  | ErrF error
  | CallerF site
  | TimeF

record event =
  ev_level :: Level
  ev_fields :: "attachment list"
  ev_message :: string

text \<open>The callbacks that \<^verbatim>\<open>Fatal()\<close> and \<^verbatim>\<open>Panic()\<close> install on their events.\<close>

datatype done_fn = done_exit | done_panic

record Event =
  e_w :: writer
  e_level :: Level
  e_buf :: "attachment list"
  e_stack :: bool
  e_ch :: "hook list"
  e_done :: "done_fn option"

datatype outcome = Returned | Panicked string | Exited nat

datatype stack_marshaler = MarshalStack

text \<open>
  \<^verbatim>\<open>pkgerrors.MarshalStack\<close>: the stack recorded in the error, or in the first error of
  its chain of causes that has one; nil when there is none.
\<close>

fun pkgerrors_MarshalStack :: "error \<Rightarrow> site list option" where
  "pkgerrors_MarshalStack (errorString m) = None"
| "pkgerrors_MarshalStack (fundamental m st) = Some st"
| "pkgerrors_MarshalStack (wrapError m e) = pkgerrors_MarshalStack e"

text \<open>
  The state of the process: the facade's \<^verbatim>\<open>Logger\<close> structs by address (the cell of an
  address holds the library logger that the struct's field \<^verbatim>\<open>l\<close> points to; the
  facade never writes through that pointer, it only replaces it), the next free
  address, the facade's two atomic flags, the library's global level, stack marshaler
  and default context logger, and everything written so far. Handles are never nil:
  every constructor of the facade returns the address of a fresh struct.
\<close>

record world =
  loggers :: "nat \<Rightarrow> zlogger"
  next_logger :: nat
  stacktraceEnabled :: bool
  callerEnabled :: bool
  gLevel :: Level
  ErrorStackMarshaler :: "stack_marshaler option"
  DefaultContextLogger :: "zlogger option"
  written :: "(dest \<times> format \<times> event) list"

definition zerolog_New :: "writer \<Rightarrow> zlogger" where
  "zerolog_New wr = \<lparr>zl_w = wr, zl_level = TraceLevel, zl_context = [], zl_hooks = []\<rparr>"

definition zl_Level :: "zlogger \<Rightarrow> Level \<Rightarrow> zlogger" where
  "zl_Level zl lvl = zl\<lparr>zl_level := lvl\<rparr>"

definition zl_Output :: "zlogger \<Rightarrow> writer \<Rightarrow> zlogger" where
  "zl_Output zl wr =
     \<lparr>zl_w = wr, zl_level = zl_level zl, zl_context = zl_context zl, zl_hooks = zl_hooks zl\<rparr>"

text \<open>
  \<^verbatim>\<open>With()\<close> opens a context on a copy of the logger, \<^verbatim>\<open>Logger()\<close> closes it. The
  fields of a context are written with the stack flag of the logger, which the facade
  never sets: they are plain fields, also when their value is an error.
\<close>

definition zl_With :: "zlogger \<Rightarrow> zlogger" where
  "zl_With zl = zl"

definition Context_Fields :: "zlogger \<Rightarrow> iface list \<Rightarrow> zlogger" where
  "Context_Fields c kvs = c\<lparr>zl_context := zl_context c @ kv_pairs kvs\<rparr>"

definition Context_Timestamp :: "zlogger \<Rightarrow> zlogger" where
  "Context_Timestamp c = c\<lparr>zl_hooks := zl_hooks c @ [timestampHook]\<rparr>"

definition Context_Logger :: "zlogger \<Rightarrow> zlogger" where
  "Context_Logger c = c"

text \<open>An event is enabled when its level is below neither the logger's nor the global level.\<close>

definition should :: "world \<Rightarrow> zlogger \<Rightarrow> Level \<Rightarrow> bool" where
  "should g zl lvl = (\<not> (lvl <s zl_level zl \<or> lvl <s gLevel g))"

text \<open>
  A disabled event is nil; its callback runs at once with the empty message, so a
  disabled \<^verbatim>\<open>Panic()\<close> panics and a disabled \<^verbatim>\<open>Fatal()\<close> exits.
\<close>

definition newEvent :: "world \<Rightarrow> zlogger \<Rightarrow> Level \<Rightarrow> done_fn option \<Rightarrow> outcome + Event option" where
  "newEvent g zl lvl d =
     (if \<not> should g zl lvl then
        (case d of
           None \<Rightarrow> Inr None
         | Some done_exit \<Rightarrow> Inl (Exited 1)
         | Some done_panic \<Rightarrow> Inl (Panicked []))
      else Inr (Some \<lparr>e_w = zl_w zl, e_level = lvl,
                      e_buf = map (\<lambda>(k, v). Field k v) (zl_context zl),
                      e_stack = False, e_ch = zl_hooks zl, e_done = d\<rparr>))"

definition zl_Debug :: "world \<Rightarrow> zlogger \<Rightarrow> outcome + Event option" where
  "zl_Debug g zl = newEvent g zl DebugLevel None"

definition zl_Info :: "world \<Rightarrow> zlogger \<Rightarrow> outcome + Event option" where
  "zl_Info g zl = newEvent g zl InfoLevel None"

definition zl_Warn :: "world \<Rightarrow> zlogger \<Rightarrow> outcome + Event option" where
  "zl_Warn g zl = newEvent g zl WarnLevel None"

definition zl_Error :: "world \<Rightarrow> zlogger \<Rightarrow> outcome + Event option" where
  "zl_Error g zl = newEvent g zl ErrorLevel None"

definition zl_Fatal :: "world \<Rightarrow> zlogger \<Rightarrow> outcome + Event option" where
  "zl_Fatal g zl = newEvent g zl FatalLevel (Some done_exit)"

definition zl_Panic :: "world \<Rightarrow> zlogger \<Rightarrow> outcome + Event option" where
  "zl_Panic g zl = newEvent g zl PanicLevel (Some done_panic)"

definition Event_Stack :: "Event option \<Rightarrow> Event option" where
  "Event_Stack ev = (case ev of None \<Rightarrow> None | Some e \<Rightarrow> Some (e\<lparr>e_stack := True\<rparr>))"

text \<open>
  \<^verbatim>\<open>Err\<close>: when \<^verbatim>\<open>Stack()\<close> was called on the event and a stack marshaler is set, the
  marshaler is run on the error and its result, unless nil, becomes the stack field;
  then the error, unless nil, becomes the error field.
\<close>

definition Event_Err :: "world \<Rightarrow> Event option \<Rightarrow> error option \<Rightarrow> Event option" where
  "Event_Err g ev err =
     (case ev of
        None \<Rightarrow> None
      | Some e \<Rightarrow>
          (let m = (if e_stack e \<and> ErrorStackMarshaler g \<noteq> None
                    then (case err of None \<Rightarrow> None | Some er \<Rightarrow> pkgerrors_MarshalStack er)
                    else None);
               e1 = (case m of None \<Rightarrow> e | Some st \<Rightarrow> e\<lparr>e_buf := e_buf e @ [StackF st]\<rparr>)
           in case err of
                None \<Rightarrow> Some e1
              | Some er \<Rightarrow> Some (e1\<lparr>e_buf := e_buf e1 @ [ErrF er]\<rparr>)))"

text \<open>
  The library's writer of a field list: each pair becomes a field; when \<open>stack\<close> holds
  (\<^verbatim>\<open>Stack()\<close> was called on the event and a stack marshaler is set), a field whose
  value is an error is followed by the stack key and whatever the marshaler gives for
  that error.
\<close>

fun appendFieldList :: "bool \<Rightarrow> (string \<times> iface) list \<Rightarrow> attachment list" where
  "appendFieldList stack [] = []"
| "appendFieldList stack ((k, ErrV er) # rest) =
     Field k (ErrV er) #
     (if stack
      then [case pkgerrors_MarshalStack er of None \<Rightarrow> StackKeyF | Some st \<Rightarrow> StackF st]
      else []) @
     appendFieldList stack rest"
| "appendFieldList stack ((k, v) # rest) = Field k v # appendFieldList stack rest"

definition Event_Fields :: "world \<Rightarrow> Event option \<Rightarrow> iface list \<Rightarrow> Event option" where
  "Event_Fields g ev kvs =
     (case ev of
        None \<Rightarrow> None
      | Some e \<Rightarrow>
          Some (e\<lparr>e_buf := e_buf e @
                  appendFieldList (e_stack e \<and> ErrorStackMarshaler g \<noteq> None) (kv_pairs kvs)\<rparr>))"

text \<open>
  \<^verbatim>\<open>Caller(skip)\<close>, called with the stack of call sites \<open>stack\<close>, innermost first, whose
  head is the site of the call of \<^verbatim>\<open>Caller\<close> itself: skip 0 reports that site, skip n the
  site n frames above it; nothing is attached when the stack is not that deep.
\<close>

definition Event_Caller :: "site list \<Rightarrow> Event option \<Rightarrow> nat \<Rightarrow> Event option" where
  "Event_Caller stack ev skip =
     (case ev of
        None \<Rightarrow> None
      | Some e \<Rightarrow>
          (if skip < length stack then Some (e\<lparr>e_buf := e_buf e @ [CallerF (stack ! skip)]\<rparr>)
           else Some e))"

text \<open>
  \<^verbatim>\<open>Msg\<close>: the hooks run (the timestamp hook adds the time), the event goes to the
  writer, then the callback of the event runs with the message.
\<close>

definition Event_Msg :: "world \<Rightarrow> Event option \<Rightarrow> string \<Rightarrow> world \<times> outcome" where
  "Event_Msg g ev msg =
     (case ev of
        None \<Rightarrow> (g, Returned)
      | Some e \<Rightarrow>
          (let rec = \<lparr>ev_level = e_level e,
                      ev_fields = e_buf e @ map (\<lambda>h. TimeF) (e_ch e),
                      ev_message = msg\<rparr>;
               g1 = g\<lparr>written := written g @ map (\<lambda>(d, f). (d, f, rec)) (deliveries (e_w e))\<rparr>
           in (g1, case e_done e of
                     None \<Rightarrow> Returned
                   | Some done_exit \<Rightarrow> Exited 1
                   | Some done_panic \<Rightarrow> Panicked msg)))"

text \<open>
  Contexts: the background, a context extended with a logger under the library's
  key, a context extended with anything else. \<^verbatim>\<open>Ctx\<close> finds the innermost logger, else
  the default context logger, else the library's disabled logger. \<^verbatim>\<open>WithContext\<close> does
  not store a disabled logger in a context that has none.
\<close>

datatype ctx = Background | WithLogger ctx zlogger | WithOther ctx

fun ctx_Value :: "ctx \<Rightarrow> zlogger option" where
  "ctx_Value Background = None"
| "ctx_Value (WithLogger c zl) = Some zl"
| "ctx_Value (WithOther c) = ctx_Value c"

definition disabledLogger :: zlogger where
  "disabledLogger = zl_Level (zerolog_New Discard) Disabled"

definition zerolog_Ctx :: "world \<Rightarrow> ctx \<Rightarrow> zlogger" where
  "zerolog_Ctx g c =
     (case ctx_Value c of
        Some zl \<Rightarrow> zl
      | None \<Rightarrow> (case DefaultContextLogger g of Some d \<Rightarrow> d | None \<Rightarrow> disabledLogger))"

definition zl_WithContext :: "zlogger \<Rightarrow> ctx \<Rightarrow> ctx" where
  "zl_WithContext zl c =
     (if ctx_Value c = None \<and> zl_level zl = Disabled then c else WithLogger c zl)"

section \<open>The facade\<close>

text \<open>\<^verbatim>\<open>&Logger{l: &zl}\<close>: a fresh struct at the next free address.\<close>

definition alloc :: "world \<Rightarrow> zlogger \<Rightarrow> world \<times> nat" where
  "alloc g zl =
     (g\<lparr>loggers := (loggers g)(next_logger g := zl), next_logger := Suc (next_logger g)\<rparr>,
      next_logger g)"

text \<open>\<^verbatim>\<open>type Option func(*Logger)\<close>: an option acts on the struct at an address.\<close>

type_synonym Option = "world \<Rightarrow> nat \<Rightarrow> world"

definition WithPlainText :: Option where
  "WithPlainText g l =
     (let zl = Context_Logger (zl_With (zl_Output (loggers g l) (ConsoleWriter (Out Stdout))))
      in g\<lparr>loggers := (loggers g)(l := zl)\<rparr>)"

definition WriteToFile :: "nat \<Rightarrow> Option" where
  "WriteToFile f g l =
     (let zl = Context_Logger (zl_With (zl_Output (loggers g l)
                 (MultiLevelWriter [ConsoleWriter (Out Stdout), Out (File f)])))
      in g\<lparr>loggers := (loggers g)(l := zl)\<rparr>)"

definition New :: "world \<Rightarrow> Level \<Rightarrow> Option list \<Rightarrow> world \<times> nat" where
  "New g lvl opts =
     (let zl = zerolog_New (Out Stdout);
          zl = zl_Level zl lvl;
          zl = Context_Logger (Context_Timestamp (zl_With zl));
          (g1, l) = alloc g zl
      in (fold (\<lambda>opt g'. opt g' l) opts g1, l))"

definition init :: "world \<Rightarrow> world" where
  "init g =
     (let g1 = g\<lparr>ErrorStackMarshaler := Some MarshalStack\<rparr>;
          (g2, l) = New g1 ErrorLevel []
      in g2\<lparr>DefaultContextLogger := Some (loggers g2 l)\<rparr>)"

definition SetGlobalLevel :: "world \<Rightarrow> Level \<Rightarrow> world" where
  "SetGlobalLevel g lvl = g\<lparr>gLevel := lvl\<rparr>"

definition SetStacktraceEnabled :: "world \<Rightarrow> bool \<Rightarrow> world" where
  "SetStacktraceEnabled g enabled = g\<lparr>stacktraceEnabled := enabled\<rparr>"

definition SetCallerEnabled :: "world \<Rightarrow> bool \<Rightarrow> world" where
  "SetCallerEnabled g enabled = g\<lparr>callerEnabled := enabled\<rparr>"

definition Logger_Level :: "world \<Rightarrow> nat \<Rightarrow> Level \<Rightarrow> world \<times> nat" where
  "Logger_Level g l lvl = alloc g (zl_Level (loggers g l) lvl)"

definition Logger_With :: "world \<Rightarrow> nat \<Rightarrow> iface list \<Rightarrow> world \<times> nat" where
  "Logger_With g l kvs = alloc g (Context_Logger (Context_Fields (zl_With (loggers g l)) kvs))"

text \<open>
  \<open>stack\<close> is the stack of call sites inside \<^verbatim>\<open>withFieldsAndCaller\<close>, innermost first:
  its head is the site in the emission method that called it.
\<close>

definition withFieldsAndCaller :: "world \<Rightarrow> site list \<Rightarrow> Event option \<Rightarrow> iface list \<Rightarrow> Event option" where
  "withFieldsAndCaller g stack event kvs =
     (let event = (if length kvs > 0 then Event_Fields g event kvs else event);
          event = (if callerEnabled g
                   then Event_Caller ((''withFieldsAndCaller'', 168) # stack) event 3
                   else event)
      in event)"

text \<open>
  The emission methods. \<open>cs\<close> is the stack of call sites of the caller, innermost
  first: its head is the site of the call of the method.
\<close>

definition Logger_Debug :: "world \<Rightarrow> site list \<Rightarrow> nat \<Rightarrow> string \<Rightarrow> iface list \<Rightarrow> world \<times> outcome" where
  "Logger_Debug g cs l msg kvs =
     (case zl_Debug g (loggers g l) of
        Inl out \<Rightarrow> (g, out)
      | Inr event \<Rightarrow>
          (let event = withFieldsAndCaller g ((''Logger.Debug'', 78) # cs) event kvs
           in Event_Msg g event msg))"

definition Logger_Info :: "world \<Rightarrow> site list \<Rightarrow> nat \<Rightarrow> string \<Rightarrow> iface list \<Rightarrow> world \<times> outcome" where
  "Logger_Info g cs l msg kvs =
     (case zl_Info g (loggers g l) of
        Inl out \<Rightarrow> (g, out)
      | Inr event \<Rightarrow>
          (let event = withFieldsAndCaller g ((''Logger.Info'', 84) # cs) event kvs
           in Event_Msg g event msg))"

definition Logger_Warn :: "world \<Rightarrow> site list \<Rightarrow> nat \<Rightarrow> string \<Rightarrow> iface list \<Rightarrow> world \<times> outcome" where
  "Logger_Warn g cs l msg kvs =
     (case zl_Warn g (loggers g l) of
        Inl out \<Rightarrow> (g, out)
      | Inr event \<Rightarrow>
          (let event = withFieldsAndCaller g ((''Logger.Warn'', 90) # cs) event kvs
           in Event_Msg g event msg))"

definition Logger_Error ::
  "world \<Rightarrow> site list \<Rightarrow> nat \<Rightarrow> error option \<Rightarrow> string \<Rightarrow> iface list \<Rightarrow> world \<times> outcome" where
  "Logger_Error g cs l err msg kvs =
     (case zl_Error g (loggers g l) of
        Inl out \<Rightarrow> (g, out)
      | Inr event \<Rightarrow>
          (let event = (if stacktraceEnabled g then Event_Stack event else event);
               event = Event_Err g event err;
               event = withFieldsAndCaller g ((''Logger.Error'', 102) # cs) event kvs
           in Event_Msg g event msg))"

definition Logger_Fatal :: "world \<Rightarrow> site list \<Rightarrow> nat \<Rightarrow> string \<Rightarrow> iface list \<Rightarrow> world \<times> outcome" where
  "Logger_Fatal g cs l msg kvs =
     (case zl_Fatal g (loggers g l) of
        Inl out \<Rightarrow> (g, out)
      | Inr event \<Rightarrow>
          (let event = withFieldsAndCaller g ((''Logger.Fatal'', 108) # cs) event kvs
           in Event_Msg g event msg))"

definition Logger_Panic :: "world \<Rightarrow> site list \<Rightarrow> nat \<Rightarrow> string \<Rightarrow> iface list \<Rightarrow> world \<times> outcome" where
  "Logger_Panic g cs l msg kvs =
     (case zl_Panic g (loggers g l) of
        Inl out \<Rightarrow> (g, out)
      | Inr event \<Rightarrow>
          (let event = withFieldsAndCaller g ((''Logger.Panic'', 114) # cs) event kvs
           in Event_Msg g event msg))"

definition ToContext :: "world \<Rightarrow> ctx \<Rightarrow> nat \<Rightarrow> ctx" where
  "ToContext g c logger = zl_WithContext (loggers g logger) c"

definition FromContext :: "world \<Rightarrow> ctx \<Rightarrow> world \<times> nat" where
  "FromContext g c = alloc g (zerolog_Ctx g c)"

text \<open>The package-level functions: \<open>cs\<close> is the caller's stack, as for the methods.\<close>

definition Debug :: "world \<Rightarrow> site list \<Rightarrow> ctx \<Rightarrow> string \<Rightarrow> iface list \<Rightarrow> world \<times> outcome" where
  "Debug g cs c msg kvs =
     (let (g1, l) = FromContext g c in Logger_Debug g1 ((''Debug'', 119) # cs) l msg kvs)"

definition Info :: "world \<Rightarrow> site list \<Rightarrow> ctx \<Rightarrow> string \<Rightarrow> iface list \<Rightarrow> world \<times> outcome" where
  "Info g cs c msg kvs =
     (let (g1, l) = FromContext g c in Logger_Info g1 ((''Info'', 123) # cs) l msg kvs)"

definition Warn :: "world \<Rightarrow> site list \<Rightarrow> ctx \<Rightarrow> string \<Rightarrow> iface list \<Rightarrow> world \<times> outcome" where
  "Warn g cs c msg kvs =
     (let (g1, l) = FromContext g c in Logger_Warn g1 ((''Warn'', 127) # cs) l msg kvs)"

definition Error ::
  "world \<Rightarrow> site list \<Rightarrow> ctx \<Rightarrow> error option \<Rightarrow> string \<Rightarrow> iface list \<Rightarrow> world \<times> outcome" where
  "Error g cs c err msg kvs =
     (let (g1, l) = FromContext g c in Logger_Error g1 ((''Error'', 131) # cs) l err msg kvs)"

definition Fatal :: "world \<Rightarrow> site list \<Rightarrow> ctx \<Rightarrow> string \<Rightarrow> iface list \<Rightarrow> world \<times> outcome" where
  "Fatal g cs c msg kvs =
     (let (g1, l) = FromContext g c in Logger_Fatal g1 ((''Fatal'', 135) # cs) l msg kvs)"

definition Panic :: "world \<Rightarrow> site list \<Rightarrow> ctx \<Rightarrow> string \<Rightarrow> iface list \<Rightarrow> world \<times> outcome" where
  "Panic g cs c msg kvs =
     (let (g1, l) = FromContext g c in Logger_Panic g1 ((''Panic'', 139) # cs) l msg kvs)"

text \<open>
  One name for the six emission methods, to state a property of all of them; the
  name of \<^verbatim>\<open>Error\<close> carries its error argument.
\<close>

datatype emission = MDebug | MInfo | MWarn | MError "error option" | MFatal | MPanic

fun severity :: "emission \<Rightarrow> Level" where
  "severity MDebug = DebugLevel"
| "severity MInfo = InfoLevel"
| "severity MWarn = WarnLevel"
| "severity (MError err) = ErrorLevel"
| "severity MFatal = FatalLevel"
| "severity MPanic = PanicLevel"

fun Logger_call :: "emission \<Rightarrow> world \<Rightarrow> site list \<Rightarrow> nat \<Rightarrow> string \<Rightarrow> iface list \<Rightarrow> world \<times> outcome" where
  "Logger_call MDebug g cs l msg kvs = Logger_Debug g cs l msg kvs"
| "Logger_call MInfo g cs l msg kvs = Logger_Info g cs l msg kvs"
| "Logger_call MWarn g cs l msg kvs = Logger_Warn g cs l msg kvs"
| "Logger_call (MError err) g cs l msg kvs = Logger_Error g cs l err msg kvs"
| "Logger_call MFatal g cs l msg kvs = Logger_Fatal g cs l msg kvs"
| "Logger_call MPanic g cs l msg kvs = Logger_Panic g cs l msg kvs"

text \<open>What a call wrote: the records added to the output.\<close>

definition emitted :: "world \<Rightarrow> world \<Rightarrow> (dest \<times> format \<times> event) list" where
  "emitted g g' = drop (length (written g)) (written g')"

text \<open>
  A process state for concrete runs: nothing allocated, both flags off, the global
  level at debug, nothing written; \<open>booted\<close> is that state after \<^verbatim>\<open>init\<close>.
\<close>

definition start :: world where
  "start = \<lparr>loggers = (\<lambda>a. disabledLogger), next_logger = 0,
            stacktraceEnabled = False, callerEnabled = False, gLevel = DebugLevel,
            ErrorStackMarshaler = None, DefaultContextLogger = None, written = []\<rparr>"

definition booted :: world where
  "booted = init start"

section \<open>Auxiliary notions for the statements\<close>

text \<open>
  The options that the facade itself provides (an \<^verbatim>\<open>Option\<close> is any function on a
  \<^verbatim>\<open>*Logger\<close>; callers may write their own).
\<close>

definition facade_option :: "Option \<Rightarrow> bool" where
  "facade_option opt \<longleftrightarrow> opt = WithPlainText \<or> (\<exists>f. opt = WriteToFile f)"

text \<open>
  The parts of the record that an enabled emission call writes, read off the methods:
  the stack field and the error field that \<^verbatim>\<open>Error\<close> writes for its error argument,
  and the caller field, which is the site three frames above the call of \<^verbatim>\<open>Caller\<close> in
  \<^verbatim>\<open>withFieldsAndCaller\<close>, that is one frame above the call of the method. Between
  them comes the field list, written while \<^verbatim>\<open>Stack()\<close> is in force in \<^verbatim>\<open>Error\<close>.
\<close>

definition stack_part :: "world \<Rightarrow> emission \<Rightarrow> attachment list" where
  "stack_part g m =
     (case m of
        MError (Some er) \<Rightarrow>
          (if stacktraceEnabled g \<and> ErrorStackMarshaler g \<noteq> None
           then (case pkgerrors_MarshalStack er of None \<Rightarrow> [] | Some st \<Rightarrow> [StackF st])
           else [])
      | _ \<Rightarrow> [])"

definition err_part :: "emission \<Rightarrow> attachment list" where
  "err_part m = (case m of MError (Some er) \<Rightarrow> [ErrF er] | _ \<Rightarrow> [])"

definition caller_part :: "world \<Rightarrow> site list \<Rightarrow> attachment list" where
  "caller_part g cs =
     (if callerEnabled g then (case cs of a # b # rest \<Rightarrow> [CallerF b] | _ \<Rightarrow> []) else [])"

fun is_MError :: "emission \<Rightarrow> bool" where
  "is_MError (MError err) = True"
| "is_MError m = False"

text \<open>Whether \<^verbatim>\<open>Stack()\<close> is in force when the method attaches the field list.\<close>

definition stack_set :: "world \<Rightarrow> emission \<Rightarrow> bool" where
  "stack_set g m \<longleftrightarrow> is_MError m \<and> stacktraceEnabled g \<and> ErrorStackMarshaler g \<noteq> None"

definition record_of :: "emission \<Rightarrow> world \<Rightarrow> site list \<Rightarrow> zlogger \<Rightarrow> string \<Rightarrow> iface list \<Rightarrow> event" where
  "record_of m g cs zl msg kvs =
     \<lparr>ev_level = severity m,
      ev_fields = map (\<lambda>(k, v). Field k v) (zl_context zl) @ stack_part g m @ err_part m @
                  appendFieldList (stack_set g m) (kv_pairs kvs) @ caller_part g cs @
                  map (\<lambda>h. TimeF) (zl_hooks zl),
      ev_message = msg\<rparr>"

text \<open>The state after \<^verbatim>\<open>init\<close> and \<^verbatim>\<open>SetGlobalLevel(ErrorLevel)\<close>.\<close>

definition quiet :: world where
  "quiet = SetGlobalLevel booted ErrorLevel"

text \<open>Concrete states for runs: a Logger built at debug after \<^verbatim>\<open>init\<close>, at address 1.\<close>

definition fresh_debug :: world where
  "fresh_debug = fst (New booted DebugLevel [])"

text \<open>Two chained \<^verbatim>\<open>With\<close> calls on that Logger.\<close>

definition chained1 :: "world \<times> nat" where
  "chained1 = Logger_With fresh_debug 1 [Str ''a'', Num 1]"

definition chained2 :: "world \<times> nat" where
  "chained2 = Logger_With (fst chained1) (snd chained1) [Str ''b'', Str ''x'']"

text \<open>The same state with stack capture switched on.\<close>

definition traced :: world where
  "traced = SetStacktraceEnabled fresh_debug True"

text \<open>The same state with caller annotation switched on.\<close>

definition annotated :: world where
  "annotated = SetCallerEnabled fresh_debug True"

text \<open>A Logger built after \<^verbatim>\<open>init\<close> at the library's level Disabled, at address 1.\<close>

definition muted :: world where
  "muted = fst (New booted Disabled [])"

text \<open>The stack fields and the caller fields among the fields of a record.\<close>

fun is_stack :: "attachment \<Rightarrow> bool" where
  "is_stack (StackF st) = True"
| "is_stack StackKeyF = True"
| "is_stack a = False"


fun is_caller :: "attachment \<Rightarrow> bool" where
  "is_caller (CallerF s) = True"
| "is_caller a = False"

section \<open>Basic facts\<close>

lemmas level_defs = DebugLevel_def InfoLevel_def WarnLevel_def ErrorLevel_def
  FatalLevel_def PanicLevel_def NoLevel_def Disabled_def TraceLevel_def
  minAllowedLevel_def maxAllowedLevel_def

lemmas zl_defs = zl_Debug_def zl_Info_def zl_Warn_def zl_Error_def zl_Fatal_def zl_Panic_def
  newEvent_def

lemmas method_defs = Logger_Debug_def Logger_Info_def Logger_Warn_def Logger_Error_def
  Logger_Fatal_def Logger_Panic_def

lemmas event_defs = withFieldsAndCaller_def Event_Fields_def Event_Caller_def Event_Msg_def
  Event_Stack_def Event_Err_def

lemmas logger_defs = zerolog_New_def zl_Level_def zl_Output_def zl_With_def
  Context_Fields_def Context_Timestamp_def Context_Logger_def

lemma should_iff: "should g zl lvl \<longleftrightarrow> zl_level zl \<le>s lvl \<and> gLevel g \<le>s lvl"
  by (auto simp: should_def word_sless_alt word_sle_eq)

text \<open>The steps of an emission call on an event that is not nil.\<close>

lemma appendFieldList_plain:
  "appendFieldList False xs = map (\<lambda>(k, v). Field k v) xs"
  by (induction False xs rule: appendFieldList.induct) simp_all

lemma withFieldsAndCaller_None:
  "withFieldsAndCaller g stack None kvs = None"
  by (simp add: withFieldsAndCaller_def Event_Fields_def Event_Caller_def)

lemma withFieldsAndCaller_Some:
  "withFieldsAndCaller g (s # cs) (Some e) kvs =
     Some (e\<lparr>e_buf := e_buf e @
                 appendFieldList (e_stack e \<and> ErrorStackMarshaler g \<noteq> None) (kv_pairs kvs) @
                 caller_part g cs\<rparr>)"
proof -
  have f: "(if length kvs > 0 then Event_Fields g (Some e) kvs else Some e) =
           Some (e\<lparr>e_buf := e_buf e @
                  appendFieldList (e_stack e \<and> ErrorStackMarshaler g \<noteq> None) (kv_pairs kvs)\<rparr>)"
    by (cases kvs) (simp_all add: Event_Fields_def)
  have c: "(if callerEnabled g
            then Event_Caller ((''withFieldsAndCaller'', 168) # s # cs) (Some e') 3
            else Some e') = Some (e'\<lparr>e_buf := e_buf e' @ caller_part g cs\<rparr>)" for e' :: Event
  proof (cases "callerEnabled g")
    case True
    then show ?thesis
      by (cases cs; cases "tl cs") (simp_all add: Event_Caller_def caller_part_def)
  next
    case False
    then show ?thesis by (simp add: caller_part_def)
  qed
  show ?thesis
    unfolding withFieldsAndCaller_def Let_def f c by simp
qed

lemma Event_Msg_Some:
  "Event_Msg g (Some e) msg =
     (g\<lparr>written := written g @
          map (\<lambda>(d, f). (d, f, \<lparr>ev_level = e_level e,
                                 ev_fields = e_buf e @ map (\<lambda>h. TimeF) (e_ch e),
                                 ev_message = msg\<rparr>))
              (deliveries (e_w e))\<rparr>,
      case e_done e of None \<Rightarrow> Returned | Some done_exit \<Rightarrow> Exited 1
                     | Some done_panic \<Rightarrow> Panicked msg)"
  by (simp add: Event_Msg_def Let_def)

lemma Event_Msg_None: "Event_Msg g None msg = (g, Returned)"
  by (simp add: Event_Msg_def)

lemma newEvent_enabled:
  "should g zl lvl \<Longrightarrow>
     newEvent g zl lvl d =
       Inr (Some \<lparr>e_w = zl_w zl, e_level = lvl,
                  e_buf = map (\<lambda>(k, v). Field k v) (zl_context zl),
                  e_stack = False, e_ch = zl_hooks zl, e_done = d\<rparr>)"
  by (simp add: newEvent_def)

lemma newEvent_disabled:
  "\<not> should g zl lvl \<Longrightarrow>
     newEvent g zl lvl d =
       (case d of None \<Rightarrow> Inr None | Some done_exit \<Rightarrow> Inl (Exited 1)
                | Some done_panic \<Rightarrow> Inl (Panicked []))"
  by (simp add: newEvent_def)

lemma Event_Err_Some:
  "Event_Err g (Some e) err =
     Some (e\<lparr>e_buf := e_buf e @
        (case err of
           None \<Rightarrow> []
         | Some er \<Rightarrow>
             (if e_stack e \<and> ErrorStackMarshaler g \<noteq> None
              then (case pkgerrors_MarshalStack er of None \<Rightarrow> [] | Some st \<Rightarrow> [StackF st])
              else []) @ [ErrF er])\<rparr>)"
  by (cases err) (simp_all add: Event_Err_def Let_def split: option.splits)

lemma Event_Err_stack:
  "e_stack (the (Event_Err g (Some e) err)) = e_stack e"
  by (cases err) (simp_all add: Event_Err_def Let_def split: option.splits)

lemmas zl_call_defs = zl_Debug_def zl_Info_def zl_Warn_def zl_Error_def zl_Fatal_def zl_Panic_def

text \<open>A call below the logger's level or the global level changes nothing.\<close>

lemma Logger_call_suppressed:
  assumes "\<not> should g (loggers g l) (severity m)"
  shows "fst (Logger_call m g cs l msg kvs) = g"
  using assms
  by (cases m)
     (simp_all add: method_defs zl_call_defs newEvent_disabled withFieldsAndCaller_None
        Event_Msg_None Event_Stack_def Event_Err_def)

text \<open>An enabled call hands one record to the writer of the logger.\<close>

lemma Logger_call_enabled:
  assumes "should g (loggers g l) (severity m)"
  shows "fst (Logger_call m g cs l msg kvs) =
           g\<lparr>written := written g @
               map (\<lambda>(d, f). (d, f, record_of m g cs (loggers g l) msg kvs))
                   (deliveries (zl_w (loggers g l)))\<rparr>"
proof (cases m)
  case (MError err)
  show ?thesis
  proof (cases "stacktraceEnabled g")
    case True
    with MError assms show ?thesis
      by (cases err)
         (simp_all add: Logger_Error_def zl_call_defs newEvent_enabled Event_Stack_def
            Event_Err_Some withFieldsAndCaller_Some Event_Msg_Some record_of_def stack_part_def
            err_part_def stack_set_def)
  next
    case False
    with MError assms show ?thesis
      by (cases err)
         (simp_all add: Logger_Error_def zl_call_defs newEvent_enabled Event_Stack_def
            Event_Err_Some withFieldsAndCaller_Some Event_Msg_Some record_of_def stack_part_def
            err_part_def stack_set_def appendFieldList_plain)
  qed
qed (insert assms,
     simp_all add: method_defs zl_call_defs newEvent_enabled withFieldsAndCaller_Some
       Event_Msg_Some record_of_def stack_part_def err_part_def stack_set_def
       appendFieldList_plain)

lemma emitted_enabled:
  assumes "should g (loggers g l) (severity m)"
  shows "emitted g (fst (Logger_call m g cs l msg kvs)) =
           map (\<lambda>(d, f). (d, f, record_of m g cs (loggers g l) msg kvs))
               (deliveries (zl_w (loggers g l)))"
  by (simp add: Logger_call_enabled [OF assms] emitted_def)

lemma emitted_suppressed:
  assumes "\<not> should g (loggers g l) (severity m)"
  shows "emitted g (fst (Logger_call m g cs l msg kvs)) = []"
  by (simp add: Logger_call_suppressed [OF assms] emitted_def)

text \<open>The facade's options replace the writer of the struct they are given, nothing else.\<close>

lemma facade_option_frame:
  assumes "facade_option opt"
  shows "zl_level (loggers (opt g l) l) = zl_level (loggers g l)"
    and "zl_context (loggers (opt g l) l) = zl_context (loggers g l)"
    and "zl_hooks (loggers (opt g l) l) = zl_hooks (loggers g l)"
    and "deliveries (zl_w (loggers (opt g l) l)) \<noteq> []"
    and "a \<noteq> l \<Longrightarrow> loggers (opt g l) a = loggers g a"
    and "gLevel (opt g l) = gLevel g"
    and "written (opt g l) = written g"
    and "next_logger (opt g l) = next_logger g"
    and "stacktraceEnabled (opt g l) = stacktraceEnabled g"
    and "callerEnabled (opt g l) = callerEnabled g"
    and "ErrorStackMarshaler (opt g l) = ErrorStackMarshaler g"
    and "DefaultContextLogger (opt g l) = DefaultContextLogger g"
  using assms
  by (auto simp: facade_option_def WithPlainText_def WriteToFile_def Let_def zl_Output_def
        zl_With_def Context_Logger_def)

lemma fold_options_frame:
  assumes "list_all facade_option opts"
  shows "zl_level (loggers (fold (\<lambda>opt g'. opt g' l) opts g) l) = zl_level (loggers g l)
       \<and> zl_context (loggers (fold (\<lambda>opt g'. opt g' l) opts g) l) = zl_context (loggers g l)
       \<and> zl_hooks (loggers (fold (\<lambda>opt g'. opt g' l) opts g) l) = zl_hooks (loggers g l)
       \<and> (deliveries (zl_w (loggers g l)) \<noteq> [] \<longrightarrow>
            deliveries (zl_w (loggers (fold (\<lambda>opt g'. opt g' l) opts g) l)) \<noteq> [])
       \<and> (\<forall>a. a \<noteq> l \<longrightarrow> loggers (fold (\<lambda>opt g'. opt g' l) opts g) a = loggers g a)
       \<and> gLevel (fold (\<lambda>opt g'. opt g' l) opts g) = gLevel g
       \<and> written (fold (\<lambda>opt g'. opt g' l) opts g) = written g
       \<and> next_logger (fold (\<lambda>opt g'. opt g' l) opts g) = next_logger g
       \<and> stacktraceEnabled (fold (\<lambda>opt g'. opt g' l) opts g) = stacktraceEnabled g
       \<and> callerEnabled (fold (\<lambda>opt g'. opt g' l) opts g) = callerEnabled g
       \<and> ErrorStackMarshaler (fold (\<lambda>opt g'. opt g' l) opts g) = ErrorStackMarshaler g
       \<and> DefaultContextLogger (fold (\<lambda>opt g'. opt g' l) opts g) = DefaultContextLogger g"
  using assms
proof (induction opts arbitrary: g)
  case Nil
  then show ?case by simp
next
  case (Cons opt opts)
  from Cons.prems have o: "facade_option opt" and os: "list_all facade_option opts"
    by simp_all
  show ?case
    using Cons.IH [OF os, of "opt g l"] facade_option_frame [OF o, where g = g and l = l]
    by simp
qed

lemma New_logger:
  assumes "New g lvl opts = (g1, l)" and "list_all facade_option opts"
  shows "zl_level (loggers g1 l) = lvl"
    and "zl_context (loggers g1 l) = []"
    and "zl_hooks (loggers g1 l) = [timestampHook]"
    and "deliveries (zl_w (loggers g1 l)) \<noteq> []"
    and "l = next_logger g"
    and "gLevel g1 = gLevel g"
    and "written g1 = written g"
  using assms(1)
    fold_options_frame [OF assms(2), of l
      "fst (alloc g (Context_Logger (Context_Timestamp (zl_With (zl_Level (zerolog_New (Out Stdout)) lvl)))))"]
  by (auto simp: New_def Let_def alloc_def logger_defs split: prod.splits)

lemma Level_logger:
  assumes "Logger_Level g l0 lvl = (g1, l)"
  shows "zl_level (loggers g1 l) = lvl"
    and "zl_w (loggers g1 l) = zl_w (loggers g l0)"
    and "zl_context (loggers g1 l) = zl_context (loggers g l0)"
    and "zl_hooks (loggers g1 l) = zl_hooks (loggers g l0)"
    and "gLevel g1 = gLevel g"
    and "written g1 = written g"
  using assms by (auto simp: Logger_Level_def alloc_def zl_Level_def)

text \<open>The state after \<^verbatim>\<open>init\<close>.\<close>

lemma booted_simps:
  "gLevel booted = DebugLevel"
  "next_logger booted = 1"
  "stacktraceEnabled booted = False"
  "callerEnabled booted = False"
  "written booted = []"
  "ErrorStackMarshaler booted = Some MarshalStack"
  "DefaultContextLogger booted =
     Some \<lparr>zl_w = Out Stdout, zl_level = ErrorLevel, zl_context = [], zl_hooks = [timestampHook]\<rparr>"
  by (simp_all add: booted_def init_def New_def alloc_def start_def Let_def logger_defs)

lemma Logger_call_outcome:
  "snd (Logger_call m g cs l msg kvs) =
     (case m of
        MFatal \<Rightarrow> Exited 1
      | MPanic \<Rightarrow> Panicked (if should g (loggers g l) PanicLevel then msg else [])
      | _ \<Rightarrow> Returned)"
  by (cases m)
     (auto simp: method_defs zl_defs event_defs Let_def split: done_fn.splits option.splits)

text \<open>
  What a call writes and how it ends depend on the state only through the logger of
  the handle, the two flags, the global level and the stack marshaler.
\<close>

lemma Logger_call_cong:
  assumes "loggers g' l' = loggers g l" "gLevel g' = gLevel g"
    "stacktraceEnabled g' = stacktraceEnabled g" "callerEnabled g' = callerEnabled g"
    "ErrorStackMarshaler g' = ErrorStackMarshaler g"
  shows "emitted g' (fst (Logger_call m g' cs l' msg kvs)) =
           emitted g (fst (Logger_call m g cs l msg kvs))"
    and "snd (Logger_call m g' cs l' msg kvs) = snd (Logger_call m g cs l msg kvs)"
proof -
  have s: "should g' (loggers g' l') lvl = should g (loggers g l) lvl" for lvl
    using assms by (simp add: should_def)
  have r: "record_of m g' cs (loggers g' l') msg kvs = record_of m g cs (loggers g l) msg kvs"
    using assms by (simp add: record_of_def stack_part_def caller_part_def stack_set_def split: emission.splits option.splits)
  show "emitted g' (fst (Logger_call m g' cs l' msg kvs)) =
           emitted g (fst (Logger_call m g cs l msg kvs))"
  proof (cases "should g (loggers g l) (severity m)")
    case True
    with s have "should g' (loggers g' l') (severity m)" by simp
    from emitted_enabled [OF this] emitted_enabled [OF True] r assms(1)
    show ?thesis by simp
  next
    case False
    with s have "\<not> should g' (loggers g' l') (severity m)" by simp
    from emitted_suppressed [OF this] emitted_suppressed [OF False]
    show ?thesis by simp
  qed
  show "snd (Logger_call m g' cs l' msg kvs) = snd (Logger_call m g cs l msg kvs)"
    by (simp add: Logger_call_outcome s)
qed

lemma fresh_debug_simps:
  "loggers fresh_debug (Suc 0) = \<lparr>zl_w = Out Stdout, zl_level = DebugLevel, zl_context = [], zl_hooks = [timestampHook]\<rparr>"
  "loggers fresh_debug 0 = \<lparr>zl_w = Out Stdout, zl_level = ErrorLevel, zl_context = [], zl_hooks = [timestampHook]\<rparr>"
  "gLevel fresh_debug = DebugLevel"
  "next_logger fresh_debug = 2"
  "stacktraceEnabled fresh_debug = False"
  "callerEnabled fresh_debug = False"
  "written fresh_debug = []"
  "ErrorStackMarshaler fresh_debug = Some MarshalStack"
  "DefaultContextLogger fresh_debug =
     Some \<lparr>zl_w = Out Stdout, zl_level = ErrorLevel, zl_context = [], zl_hooks = [timestampHook]\<rparr>"
  by (simp_all add: fresh_debug_def New_def alloc_def Let_def logger_defs booted_simps)
     (simp_all add: booted_def init_def New_def alloc_def start_def Let_def logger_defs)

lemma chained2_simps:
  "snd chained2 = 3"
  "loggers (fst chained2) 3 =
     \<lparr>zl_w = Out Stdout, zl_level = DebugLevel,
      zl_context = [(''a'', Num 1), (''b'', Str ''x'')], zl_hooks = [timestampHook]\<rparr>"
  "gLevel (fst chained2) = DebugLevel"
  "stacktraceEnabled (fst chained2) = False"
  "callerEnabled (fst chained2) = False"
  by (simp_all add: chained2_def chained1_def Logger_With_def alloc_def logger_defs
        fresh_debug_simps)

lemma traced_simps:
  "loggers traced (Suc 0) = \<lparr>zl_w = Out Stdout, zl_level = DebugLevel, zl_context = [], zl_hooks = [timestampHook]\<rparr>"
  "gLevel traced = DebugLevel"
  "stacktraceEnabled traced = True"
  "callerEnabled traced = False"
  "ErrorStackMarshaler traced = Some MarshalStack"
  by (simp_all add: traced_def SetStacktraceEnabled_def fresh_debug_simps)

lemma should_traced: "should traced (loggers traced 1) (severity m)"
  by (cases m) (simp_all add: should_iff traced_simps level_defs word_sle_eq)

lemma no_stack_in_caller_part: "\<forall>a \<in> set (caller_part g cs). \<not> is_stack a"
  by (cases "callerEnabled g"; cases cs; cases "tl cs") (auto simp: caller_part_def)

lemma no_stack_in_err_part: "\<forall>a \<in> set (err_part m). \<not> is_stack a"
  by (cases m) (auto simp: err_part_def split: option.splits)

lemma no_stack_in_plain_fields:
  "\<forall>a \<in> set (map (\<lambda>(k, v). Field k v) xs). \<not> is_stack a"
  by (induction xs) auto

lemma no_stack_in_times: "\<forall>a \<in> set (map (\<lambda>h. TimeF) hs). \<not> is_stack a"
  by (induction hs) auto

lemma no_caller_in_appendFieldList: "filter is_caller (appendFieldList b xs) = []"
  by (induction b xs rule: appendFieldList.induct) (simp_all split: option.splits)

text \<open>The field list gives a stack field exactly when the flag holds and a value is an error.\<close>

lemma stack_in_appendFieldList:
  "(\<exists>a \<in> set (appendFieldList b xs). is_stack a) \<longleftrightarrow> b \<and> (\<exists>k er. (k, ErrV er) \<in> set xs)"
  by (induction b xs rule: appendFieldList.induct) (auto split: option.splits)

lemma stack_part_cases:
  "stack_part g m = [] \<or>
   (\<exists>er st. m = MError (Some er) \<and> stacktraceEnabled g \<and> ErrorStackMarshaler g \<noteq> None \<and>
      pkgerrors_MarshalStack er = Some st \<and> stack_part g m = [StackF st] \<and> err_part m = [ErrF er])"
proof (cases m)
  case (MError err)
  then show ?thesis
    by (cases err; cases "stacktraceEnabled g \<and> ErrorStackMarshaler g \<noteq> None")
       (auto simp: stack_part_def err_part_def split: option.splits)
qed (simp_all add: stack_part_def)

lemma stack_part_empty:
  "stack_part g m = [] \<Longrightarrow>
     \<not> (\<exists>er st. m = MError (Some er) \<and> stacktraceEnabled g \<and> ErrorStackMarshaler g \<noteq> None \<and>
        pkgerrors_MarshalStack er = Some st)"
  by (auto simp: stack_part_def split: if_splits)

lemma stack_in_stack_part:
  "(\<exists>a \<in> set (stack_part g m). is_stack a) \<longleftrightarrow>
     (\<exists>er st. m = MError (Some er) \<and> stacktraceEnabled g \<and> ErrorStackMarshaler g \<noteq> None \<and>
        pkgerrors_MarshalStack er = Some st)"
proof -
  from stack_part_cases [of g m] show ?thesis
  proof
    assume e: "stack_part g m = []"
    with stack_part_empty [OF e] show ?thesis by simp
  next
    assume "\<exists>er st. m = MError (Some er) \<and> stacktraceEnabled g \<and> ErrorStackMarshaler g \<noteq> None \<and>
      pkgerrors_MarshalStack er = Some st \<and> stack_part g m = [StackF st] \<and> err_part m = [ErrF er]"
    then show ?thesis by auto
  qed
qed

lemma stack_set_iff:
  "stack_set g m \<longleftrightarrow>
     (\<exists>err. m = MError err) \<and> stacktraceEnabled g \<and> ErrorStackMarshaler g \<noteq> None"
  by (cases m) (simp_all add: stack_set_def)

lemma stack_in_record:
  "(\<exists>a \<in> set (ev_fields (record_of m g cs zl msg kvs)). is_stack a) \<longleftrightarrow>
     (\<exists>a \<in> set (stack_part g m). is_stack a) \<or>
     (\<exists>a \<in> set (appendFieldList (stack_set g m) (kv_pairs kvs)). is_stack a)"
  using no_stack_in_caller_part [of g cs] no_stack_in_err_part [of m]
    no_stack_in_plain_fields [of "zl_context zl"] no_stack_in_times [of "zl_hooks zl"]
  by (auto simp: record_of_def)

lemma record_stack_iff:
  assumes "ErrorStackMarshaler g \<noteq> None"
  shows "(\<exists>a \<in> set (ev_fields (record_of m g cs zl msg kvs)). is_stack a) \<longleftrightarrow>
              (\<exists>err. m = MError err \<and> stacktraceEnabled g \<and>
                 ((\<exists>er st. err = Some er \<and> pkgerrors_MarshalStack er = Some st) \<or>
                  (\<exists>k er. (k, ErrV er) \<in> set (kv_pairs kvs))))"
proof -
  have 1: "(\<exists>a \<in> set (stack_part g m). is_stack a) \<longleftrightarrow>
     (\<exists>err. m = MError err \<and> stacktraceEnabled g \<and>
        (\<exists>er st. err = Some er \<and> pkgerrors_MarshalStack er = Some st))"
    unfolding stack_in_stack_part using assms by auto
  have 2: "(\<exists>a \<in> set (appendFieldList (stack_set g m) (kv_pairs kvs)). is_stack a) \<longleftrightarrow>
     (\<exists>err. m = MError err \<and> stacktraceEnabled g \<and> (\<exists>k er. (k, ErrV er) \<in> set (kv_pairs kvs)))"
    unfolding stack_in_appendFieldList stack_set_iff using assms by auto
  show ?thesis
    unfolding stack_in_record 1 2 by blast
qed

lemma record_error_stack_first:
  assumes "ErrorStackMarshaler g \<noteq> None"
    and "m = MError (Some er)" "stacktraceEnabled g" "pkgerrors_MarshalStack er = Some st"
  shows "\<exists>rest. ev_fields (record_of m g cs zl msg kvs) =
           map (\<lambda>(k, v). Field k v) (zl_context zl) @ StackF st # ErrF er # rest"
  using assms by (simp add: record_of_def stack_part_def err_part_def)

lemma record_shape:
  "\<exists>rest. ev_fields (record_of m g cs zl msg kvs) =
            map (\<lambda>(k, v). Field k v) (zl_context zl) @ stack_part g m @
            err_part m @ appendFieldList (stack_set g m) (kv_pairs kvs) @ rest \<and>
          (\<forall>a \<in> set rest. \<not> is_stack a)"
proof -
  have "\<forall>a \<in> set (caller_part g cs @ map (\<lambda>h. TimeF) (zl_hooks zl)). \<not> is_stack a"
    using no_stack_in_caller_part [of g cs] no_stack_in_times [of "zl_hooks zl"]
    by (simp add: ball_Un)
  then show ?thesis
    by (intro exI [of _ "caller_part g cs @ map (\<lambda>h. TimeF) (zl_hooks zl)"])
       (simp add: record_of_def)
qed

lemma ball_deliveries:
  "R r \<Longrightarrow> \<forall>(d, f, e) \<in> set (map (\<lambda>(d, f). (d, f, r)) D). R e"
  by auto

lemma annotated_simps:
  "loggers annotated (Suc 0) = \<lparr>zl_w = Out Stdout, zl_level = DebugLevel, zl_context = [], zl_hooks = [timestampHook]\<rparr>"
  "gLevel annotated = DebugLevel"
  "stacktraceEnabled annotated = False"
  "callerEnabled annotated = True"
  "next_logger annotated = 2"
  "written annotated = []"
  by (simp_all add: annotated_def SetCallerEnabled_def fresh_debug_simps)

lemma muted_simps:
  "loggers muted (Suc 0) = \<lparr>zl_w = Out Stdout, zl_level = Disabled, zl_context = [], zl_hooks = [timestampHook]\<rparr>"
  "next_logger muted = 2"
  "DefaultContextLogger muted =
     Some \<lparr>zl_w = Out Stdout, zl_level = ErrorLevel, zl_context = [], zl_hooks = [timestampHook]\<rparr>"
  by (simp_all add: muted_def New_def alloc_def Let_def logger_defs booted_simps)

lemma init_default:
  "DefaultContextLogger (init g0) =
     Some \<lparr>zl_w = Out Stdout, zl_level = ErrorLevel, zl_context = [], zl_hooks = [timestampHook]\<rparr>"
  by (simp add: init_def New_def alloc_def Let_def logger_defs)

lemma FromContext_default:
  assumes "ctx_Value c = None" "DefaultContextLogger g = Some d"
  shows "loggers (fst (FromContext g c)) (snd (FromContext g c)) = d"
    and "gLevel (fst (FromContext g c)) = gLevel g"
  using assms by (simp_all add: FromContext_def zerolog_Ctx_def alloc_def)

text \<open>No operation of the facade after \<^verbatim>\<open>init\<close> touches the default context logger.\<close>

lemma default_logger_kept:
  "DefaultContextLogger (fst (Logger_call m g cs l msg kvs)) = DefaultContextLogger g"
  "DefaultContextLogger (fst (Logger_With g l kvs)) = DefaultContextLogger g"
  "DefaultContextLogger (fst (Logger_Level g l lvl)) = DefaultContextLogger g"
  "DefaultContextLogger (fst (FromContext g c)) = DefaultContextLogger g"
  "DefaultContextLogger (SetGlobalLevel g lvl) = DefaultContextLogger g"
  "DefaultContextLogger (SetStacktraceEnabled g b) = DefaultContextLogger g"
  "DefaultContextLogger (SetCallerEnabled g b) = DefaultContextLogger g"
  "list_all facade_option opts \<Longrightarrow> DefaultContextLogger (fst (New g lvl opts)) = DefaultContextLogger g"
proof -
  show "DefaultContextLogger (fst (Logger_call m g cs l msg kvs)) = DefaultContextLogger g"
  proof (cases "should g (loggers g l) (severity m)")
    case True
    then show ?thesis by (simp add: Logger_call_enabled)
  next
    case False
    then show ?thesis by (simp add: Logger_call_suppressed)
  qed
  show "list_all facade_option opts \<Longrightarrow> DefaultContextLogger (fst (New g lvl opts)) = DefaultContextLogger g"
    using fold_options_frame [of opts "next_logger g"
      "fst (alloc g (Context_Logger (Context_Timestamp (zl_With (zl_Level (zerolog_New (Out Stdout)) lvl)))))"]
    by (simp add: New_def Let_def alloc_def)
qed (simp_all add: Logger_With_def Logger_Level_def FromContext_def alloc_def
       SetGlobalLevel_def SetStacktraceEnabled_def SetCallerEnabled_def)

text \<open>Without the caller flag the stack of the call does not matter.\<close>

lemma Logger_call_stack_irrelevant:
  assumes "\<not> callerEnabled g"
  shows "Logger_call m g cs l msg kvs = Logger_call m g cs' l msg kvs"
  using assms
  by (cases m) (simp_all add: method_defs withFieldsAndCaller_def Let_def split: sum.splits)

section \<open>Properties of ParseLevel\<close>

text \<open>
  C3. Whenever the underlying parser accepts a name with a value below DebugLevel,
  ParseLevel returns DebugLevel and a nil error and prints one diagnostic line; with a
  value above PanicLevel it returns PanicLevel and a nil error and prints one diagnostic
  line. For a parser that reads "trace" as the level below debug, parsing "trace"
  gives DebugLevel and no error.
\<close>

theorem ParseLevel_clamps:
  "(p s = (z, None) \<and> z <s DebugLevel \<longrightarrow>
      fst (ParseLevel p s) = (DebugLevel, None) \<and>
      snd (ParseLevel p s) = [''log level '' @ quoted s @ '' less than min allowed'' @ [CHR 0x0A]]) \<and>
   (p s = (z, None) \<and> PanicLevel <s z \<longrightarrow>
      fst (ParseLevel p s) = (PanicLevel, None) \<and>
      snd (ParseLevel p s) = [''log level '' @ quoted s @ '' greater than max allowed'' @ [CHR 0x0A]])"
  by (auto simp: ParseLevel_def level_defs word_sless_alt)

theorem ParseLevel_clamps_witness:
  "sample_parser ''trace'' = (TraceLevel, None) \<and> TraceLevel <s DebugLevel \<and>
   fst (ParseLevel sample_parser ''trace'') = (DebugLevel, None) \<and>
   snd (ParseLevel sample_parser ''trace'') =
     [''log level '' @ quoted ''trace'' @ '' less than min allowed'' @ [CHR 0x0A]] \<and>
   sample_parser ''disabled'' = (Disabled, None) \<and> PanicLevel <s Disabled \<and>
   fst (ParseLevel sample_parser ''disabled'') = (PanicLevel, None)"
proof -
  have a: "sample_parser ''trace'' = (TraceLevel, None)"
    by (simp add: sample_parser_def)
  have b: "TraceLevel <s DebugLevel"
    by (simp add: level_defs word_sless_alt)
  have c: "sample_parser ''disabled'' = (Disabled, None)"
    by (simp add: sample_parser_def)
  have d: "PanicLevel <s Disabled"
    by (simp add: level_defs word_sless_alt)
  from a b c d
    ParseLevel_clamps [of sample_parser "''trace''" TraceLevel]
    ParseLevel_clamps [of sample_parser "''disabled''" Disabled]
  show ?thesis by simp
qed

text \<open>
  C4, as amended. Whenever the underlying parser rejects a string, ParseLevel returns
  no diagnostic, the level ErrorLevel, which is not the zero level, and a non-nil error
  that unwraps to the parser's error and whose message holds the quoted string and the
  parser's message. ErrorLevel is also what a successful parse of "error" returns: a
  failure differs from a success by its error alone, every success having a nil error.
\<close>

theorem ParseLevel_failure:
  "p s = (z, Some err) \<Longrightarrow>
     (\<exists>e. ParseLevel p s = ((ErrorLevel, Some e), []) \<and> Unwrap e = Some err \<and>
          Error_msg e = ''cannot parse log level '' @ quoted s @ '' '' @ Error_msg err) \<and>
     ErrorLevel \<noteq> 0 \<and>
     (\<forall>s'. snd (p s') = None \<longrightarrow> snd (fst (ParseLevel p s')) = None)"
  by (auto simp: ParseLevel_def Errorf_cannot_parse_def ErrorLevel_def Let_def
        split: prod.splits option.splits)

theorem ParseLevel_failure_witness:
  "sample_parser ''bogus'' = (NoLevel, Some (errorString ''Unknown Level String: bogus'')) \<and>
   ParseLevel sample_parser ''bogus'' =
     ((ErrorLevel,
       Some (wrapError (''cannot parse log level '' @ quoted ''bogus'' @ '' Unknown Level String: bogus'')
               (errorString ''Unknown Level String: bogus''))), []) \<and>
   snd (sample_parser ''warn'') = None \<and>
   snd (fst (ParseLevel sample_parser ''warn'')) = None"
proof -
  have a: "sample_parser ''bogus'' = (NoLevel, Some (errorString ''Unknown Level String: bogus''))"
    by (simp add: sample_parser_def)
  have b: "snd (sample_parser ''warn'') = None"
    by (simp add: sample_parser_def)
  from ParseLevel_failure [of sample_parser "''bogus''" NoLevel "errorString ''Unknown Level String: bogus''"] a obtain e where
    e: "ParseLevel sample_parser ''bogus'' = ((ErrorLevel, Some e), [])"
       "Unwrap e = Some (errorString ''Unknown Level String: bogus'')"
       "Error_msg e = ''cannot parse log level '' @ quoted ''bogus'' @ '' '' @
                      Error_msg (errorString ''Unknown Level String: bogus'')"
    and f: "\<forall>s'. snd (sample_parser s') = None \<longrightarrow> snd (fst (ParseLevel sample_parser s')) = None"
    by blast
  from e(2,3) have "e = wrapError (''cannot parse log level '' @ quoted ''bogus'' @ '' Unknown Level String: bogus'')
               (errorString ''Unknown Level String: bogus'')"
    by (cases e) simp_all
  with a b e(1) f show ?thesis by blast
qed

text \<open>
  The level returned for the rejected string "bogus" is the level returned for the
  accepted string "error": the level value of a failure can be mistaken for a parsed one.
\<close>

theorem ParseLevel_failure_level_counterexample:
  "snd (sample_parser ''bogus'') \<noteq> None \<and> snd (sample_parser ''error'') = None \<and>
   snd (fst (ParseLevel sample_parser ''error'')) = None \<and>
   fst (fst (ParseLevel sample_parser ''bogus'')) = fst (fst (ParseLevel sample_parser ''error''))"
  by (simp add: sample_parser_def ParseLevel_def level_defs word_sless_alt)

section \<open>Level filtering\<close>

text \<open>
  C1, as amended. For a Logger built at level L2 by New (with the facade's options) or by
  the Level derivation: an emission call of a severity below L2 changes nothing, so
  writes nothing; an emission call of a severity at or above L2 that is also at or above
  the process-wide global level hands exactly one record of that severity and message
  to the Logger's writer, and the writer of a Logger built by New has a destination.
\<close>

theorem level_filter:
  assumes "(New g L2 opts = (g1, l) \<and> list_all facade_option opts) \<or> Logger_Level g l0 L2 = (g1, l)"
  shows "(severity m <s L2 \<longrightarrow> fst (Logger_call m g1 cs l msg kvs) = g1) \<and>
         (L2 \<le>s severity m \<and> gLevel g1 \<le>s severity m \<longrightarrow>
            (\<exists>fs. emitted g1 (fst (Logger_call m g1 cs l msg kvs)) =
                    map (\<lambda>(d, f). (d, f, \<lparr>ev_level = severity m, ev_fields = fs, ev_message = msg\<rparr>))
                        (deliveries (zl_w (loggers g1 l))))) \<and>
         (New g L2 opts = (g1, l) \<and> list_all facade_option opts \<longrightarrow>
            deliveries (zl_w (loggers g1 l)) \<noteq> [])"
proof -
  have lv: "zl_level (loggers g1 l) = L2"
    using assms New_logger(1) Level_logger(1) by blast
  have a: "severity m <s L2 \<Longrightarrow> fst (Logger_call m g1 cs l msg kvs) = g1"
    by (rule Logger_call_suppressed) (simp add: should_def lv)
  have b: "\<exists>fs. emitted g1 (fst (Logger_call m g1 cs l msg kvs)) =
                    map (\<lambda>(d, f). (d, f, \<lparr>ev_level = severity m, ev_fields = fs, ev_message = msg\<rparr>))
                        (deliveries (zl_w (loggers g1 l)))"
    if "L2 \<le>s severity m" "gLevel g1 \<le>s severity m"
  proof -
    have "should g1 (loggers g1 l) (severity m)"
      using that by (simp add: should_iff lv)
    from emitted_enabled [OF this, of cs msg kvs] show ?thesis
      by (auto simp: record_of_def)
  qed
  have c: "deliveries (zl_w (loggers g1 l)) \<noteq> []"
    if "New g L2 opts = (g1, l)" "list_all facade_option opts"
    using that by (rule New_logger(4))
  from a b c show ?thesis by blast
qed

lemma New_booted:
  "New booted lvl [] =
     (booted\<lparr>loggers := (loggers booted)(1 := \<lparr>zl_w = Out Stdout, zl_level = lvl, zl_context = [], zl_hooks = [timestampHook]\<rparr>),
             next_logger := 2\<rparr>, 1)"
  by (simp add: New_def alloc_def Let_def logger_defs booted_simps)

theorem level_filter_witness:
  "New booted WarnLevel [] = (fst (New booted WarnLevel []), 1) \<and>
   list_all facade_option [] \<and>
   severity MInfo <s WarnLevel \<and>
   fst (Logger_call MInfo (fst (New booted WarnLevel [])) [] 1 ''m'' []) = fst (New booted WarnLevel []) \<and>
   WarnLevel \<le>s severity MPanic \<and> gLevel (fst (New booted WarnLevel [])) \<le>s severity MPanic \<and>
   emitted (fst (New booted WarnLevel [])) (fst (Logger_call MPanic (fst (New booted WarnLevel [])) [] 1 ''m'' [])) =
     [(Stdout, JSON, \<lparr>ev_level = PanicLevel, ev_fields = [TimeF], ev_message = ''m''\<rparr>)]"
proof -
  have n: "New booted WarnLevel [] = (fst (New booted WarnLevel []), 1)"
    by (simp add: New_booted)
  have o: "list_all facade_option []" by simp
  have s1: "severity MInfo <s WarnLevel" by (simp add: level_defs word_sless_alt word_sle_eq)
  have s2: "WarnLevel \<le>s severity MPanic" by (simp add: level_defs word_sless_alt word_sle_eq)
  have s3: "gLevel (fst (New booted WarnLevel [])) \<le>s severity MPanic"
    by (simp add: New_booted booted_simps level_defs word_sless_alt word_sle_eq)
  from level_filter [of booted WarnLevel "[]" "fst (New booted WarnLevel [])" 1 _ MInfo "[]" "''m''" "[]"] n o s1
  have a: "fst (Logger_call MInfo (fst (New booted WarnLevel [])) [] 1 ''m'' []) = fst (New booted WarnLevel [])"
    by blast
  from level_filter [of booted WarnLevel "[]" "fst (New booted WarnLevel [])" 1 _ MPanic "[]" "''m''" "[]"] n o s2 s3
  have b: "\<exists>fs. emitted (fst (New booted WarnLevel [])) (fst (Logger_call MPanic (fst (New booted WarnLevel [])) [] 1 ''m'' [])) =
      map (\<lambda>(d, f). (d, f, \<lparr>ev_level = severity MPanic, ev_fields = fs, ev_message = ''m''\<rparr>))
        (deliveries (zl_w (loggers (fst (New booted WarnLevel [])) 1)))"
    by blast
  have "should (fst (New booted WarnLevel [])) (loggers (fst (New booted WarnLevel [])) 1) (severity MPanic)"
    by (simp add: should_iff New_booted booted_simps level_defs word_sless_alt word_sle_eq)
  from emitted_enabled [OF this, of "[]" "''m''" "[]"]
  have "emitted (fst (New booted WarnLevel [])) (fst (Logger_call MPanic (fst (New booted WarnLevel [])) [] 1 ''m'' [])) =
     [(Stdout, JSON, \<lparr>ev_level = PanicLevel, ev_fields = [TimeF], ev_message = ''m''\<rparr>)]"
    by (simp add: New_booted record_of_def stack_part_def err_part_def caller_part_def booted_simps)
  with n o s1 s2 s3 a show ?thesis by simp
qed

text \<open>
  After SetGlobalLevel(ErrorLevel), a Logger built at DebugLevel writes nothing for an
  Info call, although info is above debug.
\<close>

theorem level_filter_global_counterexample:
  "zl_level (loggers (fst (New quiet DebugLevel [])) (snd (New quiet DebugLevel []))) = DebugLevel \<and>
   DebugLevel \<le>s InfoLevel \<and>
   emitted (fst (New quiet DebugLevel []))
     (fst (Logger_Info (fst (New quiet DebugLevel [])) [] (snd (New quiet DebugLevel [])) ''m'' [])) = []"
  by (simp add: quiet_def SetGlobalLevel_def New_def alloc_def Let_def logger_defs booted_simps
        Logger_Info_def zl_defs should_def event_defs emitted_def level_defs word_sless_alt word_sle_eq)

section \<open>Derivations and options\<close>

text \<open>
  C2, as amended. For every existing Logger l: With, Level and New return a new Logger,
  different from l, and leave l unaffected: its cell is unchanged, and every emission
  call through l writes the same records and ends the same way after the derivation as
  before it. An output option returns no Logger: WithPlainText and WriteToFile rebind
  in place the Logger they are applied to, replacing its writer.
\<close>

theorem derivations_frame:
  assumes "l < next_logger g"
  shows "(Logger_With g l kvs = (g1, l1) \<or> Logger_Level g l lvl = (g1, l1) \<or>
          (New g lvl opts = (g1, l1) \<and> list_all facade_option opts) \<longrightarrow>
            l1 \<noteq> l \<and> loggers g1 l = loggers g l \<and>
            emitted g1 (fst (Logger_call m g1 cs l msg fs)) = emitted g (fst (Logger_call m g cs l msg fs)) \<and>
            snd (Logger_call m g1 cs l msg fs) = snd (Logger_call m g cs l msg fs)) \<and>
         WithPlainText g l = g\<lparr>loggers := (loggers g)(l := zl_Output (loggers g l) (ConsoleWriter (Out Stdout)))\<rparr> \<and>
         WriteToFile f g l = g\<lparr>loggers := (loggers g)(l := zl_Output (loggers g l)
                                 (MultiLevelWriter [ConsoleWriter (Out Stdout), Out (File f)]))\<rparr>"
proof -
  have k: "l1 \<noteq> l \<and> loggers g1 l = loggers g l \<and> gLevel g1 = gLevel g \<and>
           stacktraceEnabled g1 = stacktraceEnabled g \<and> callerEnabled g1 = callerEnabled g \<and>
           ErrorStackMarshaler g1 = ErrorStackMarshaler g"
    if "Logger_With g l kvs = (g1, l1) \<or> Logger_Level g l lvl = (g1, l1) \<or>
          (New g lvl opts = (g1, l1) \<and> list_all facade_option opts)"
    using that
  proof (elim disjE conjE)
    assume "Logger_With g l kvs = (g1, l1)"
    then show ?thesis using assms by (auto simp: Logger_With_def alloc_def)
  next
    assume "Logger_Level g l lvl = (g1, l1)"
    then show ?thesis using assms by (auto simp: Logger_Level_def alloc_def)
  next
    assume n: "New g lvl opts = (g1, l1)" and o: "list_all facade_option opts"
    from n have l1: "l1 = next_logger g" by (auto simp: New_def Let_def alloc_def split: prod.splits)
    with assms have ne: "l \<noteq> l1" by simp
    from n l1 have g1: "g1 = fold (\<lambda>opt g'. opt g' l1) opts
         (fst (alloc g (Context_Logger (Context_Timestamp (zl_With (zl_Level (zerolog_New (Out Stdout)) lvl))))))"
      by (auto simp: New_def Let_def alloc_def split: prod.splits)
    from fold_options_frame [OF o, of l1
      "fst (alloc g (Context_Logger (Context_Timestamp (zl_With (zl_Level (zerolog_New (Out Stdout)) lvl)))))"]
      ne l1
    show ?thesis unfolding g1 by (simp add: alloc_def)
  qed
  have a: "l1 \<noteq> l \<and> loggers g1 l = loggers g l \<and>
            emitted g1 (fst (Logger_call m g1 cs l msg fs)) = emitted g (fst (Logger_call m g cs l msg fs)) \<and>
            snd (Logger_call m g1 cs l msg fs) = snd (Logger_call m g cs l msg fs)"
    if "Logger_With g l kvs = (g1, l1) \<or> Logger_Level g l lvl = (g1, l1) \<or>
          (New g lvl opts = (g1, l1) \<and> list_all facade_option opts)"
    using k [OF that] Logger_call_cong [of g1 l g l m cs msg fs] by simp
  have b: "WithPlainText g l = g\<lparr>loggers := (loggers g)(l := zl_Output (loggers g l) (ConsoleWriter (Out Stdout)))\<rparr>"
    by (simp add: WithPlainText_def Let_def Context_Logger_def zl_With_def)
  have c: "WriteToFile f g l = g\<lparr>loggers := (loggers g)(l := zl_Output (loggers g l)
                                 (MultiLevelWriter [ConsoleWriter (Out Stdout), Out (File f)]))\<rparr>"
    by (simp add: WriteToFile_def Let_def Context_Logger_def zl_With_def)
  from a b c show ?thesis by blast
qed

theorem derivations_frame_witness:
  "(0::nat) < next_logger booted \<and>
   Logger_With booted 0 [Str ''k'', Str ''v''] = (fst (Logger_With booted 0 [Str ''k'', Str ''v'']), 1) \<and>
   (1::nat) \<noteq> 0 \<and>
   loggers (fst (Logger_With booted 0 [Str ''k'', Str ''v''])) 0 = loggers booted 0 \<and>
   emitted (fst (Logger_With booted 0 [Str ''k'', Str ''v'']))
      (fst (Logger_call (MError None) (fst (Logger_With booted 0 [Str ''k'', Str ''v''])) [] 0 ''m'' [])) =
     emitted booted (fst (Logger_call (MError None) booted [] 0 ''m'' []))"
proof -
  have a: "(0::nat) < next_logger booted" by (simp add: booted_simps)
  have b: "Logger_With booted 0 [Str ''k'', Str ''v''] = (fst (Logger_With booted 0 [Str ''k'', Str ''v'']), 1)"
    by (simp add: Logger_With_def alloc_def booted_simps)
  from derivations_frame [OF a, of "[Str ''k'', Str ''v'']" "fst (Logger_With booted 0 [Str ''k'', Str ''v''])" 1
      _ _ "MError None" "[]" "''m''" "[]"] a b
  show ?thesis by simp
qed

text \<open>
  A Logger at debug writes structured lines to standard output; after WithPlainText is
  applied to it, the same Logger writes console text: the original is affected.
\<close>

theorem option_mutates_counterexample:
  "emitted fresh_debug (fst (Logger_Info fresh_debug [] 1 ''m'' [])) =
     [(Stdout, JSON, \<lparr>ev_level = InfoLevel, ev_fields = [TimeF], ev_message = ''m''\<rparr>)] \<and>
   emitted (WithPlainText fresh_debug 1) (fst (Logger_Info (WithPlainText fresh_debug 1) [] 1 ''m'' [])) =
     [(Stdout, Console, \<lparr>ev_level = InfoLevel, ev_fields = [TimeF], ev_message = ''m''\<rparr>)]"
  by (simp add: WithPlainText_def Let_def logger_defs fresh_debug_simps
        Logger_Info_def zl_defs should_def event_defs emitted_def level_defs word_sless_alt)

section \<open>Attached fields\<close>

text \<open>
  C5. For a Logger derived by With(k1, v1) and then With(k2, v2), the attached fields are
  those of the original followed by k1 = v1 and k2 = v2, in this order, and in every
  later state where the derived Logger still has these fields every record written by
  an emission call through it starts with the original's fields, then k1 = v1, then
  k2 = v2.
\<close>

theorem With_accumulates:
  assumes "Logger_With g l [Str k1, v1] = (g1, l1)"
      and "Logger_With g1 l1 [Str k2, v2] = (g2, l2)"
      and "zl_context (loggers g3 l2) = zl_context (loggers g2 l2)"
  shows "zl_context (loggers g2 l2) = zl_context (loggers g l) @ [(k1, v1), (k2, v2)] \<and>
         (\<forall>(d, f, e) \<in> set (emitted g3 (fst (Logger_call m g3 cs l2 msg kvs))).
            \<exists>rest. ev_fields e =
              map (\<lambda>(k, v). Field k v) (zl_context (loggers g l)) @ [Field k1 v1, Field k2 v2] @ rest)"
proof -
  have c: "zl_context (loggers g2 l2) = zl_context (loggers g l) @ [(k1, v1), (k2, v2)]"
    using assms(1,2) by (auto simp: Logger_With_def alloc_def logger_defs)
  have "\<exists>rest. ev_fields e =
          map (\<lambda>(k, v). Field k v) (zl_context (loggers g l)) @ [Field k1 v1, Field k2 v2] @ rest"
    if "(d, f, e) \<in> set (emitted g3 (fst (Logger_call m g3 cs l2 msg kvs)))" for d f e
  proof (cases "should g3 (loggers g3 l2) (severity m)")
    case True
    from that emitted_enabled [OF True, of cs msg kvs]
    have "e = record_of m g3 cs (loggers g3 l2) msg kvs" by auto
    then show ?thesis using c assms(3) by (simp add: record_of_def)
  next
    case False
    from that emitted_suppressed [OF False, of cs msg kvs] show ?thesis by simp
  qed
  with c show ?thesis by blast
qed

theorem With_accumulates_witness:
  "Logger_With fresh_debug 1 [Str ''a'', Num 1] = chained1 \<and>
   Logger_With (fst chained1) (snd chained1) [Str ''b'', Str ''x''] = chained2 \<and>
   emitted (fst chained2) (fst (Logger_call MInfo (fst chained2) [] (snd chained2) ''m'' [])) =
     [(Stdout, JSON, \<lparr>ev_level = InfoLevel,
         ev_fields = [Field ''a'' (Num 1), Field ''b'' (Str ''x''), TimeF], ev_message = ''m''\<rparr>)] \<and>
   (\<exists>rest. [Field ''a'' (Num 1), Field ''b'' (Str ''x''), TimeF] =
       map (\<lambda>(k, v). Field k v) (zl_context (loggers fresh_debug 1)) @
       [Field ''a'' (Num 1), Field ''b'' (Str ''x'')] @ rest)"
proof -
  have a: "Logger_With fresh_debug 1 [Str ''a'', Num 1] = (fst chained1, snd chained1)"
    by (simp add: chained1_def)
  have b: "Logger_With (fst chained1) (snd chained1) [Str ''b'', Str ''x''] = (fst chained2, snd chained2)"
    by (simp add: chained2_def)
  have s: "should (fst chained2) (loggers (fst chained2) (snd chained2)) (severity MInfo)"
    by (simp add: should_iff chained2_simps level_defs word_sle_eq)
  have e: "emitted (fst chained2) (fst (Logger_call MInfo (fst chained2) [] (snd chained2) ''m'' [])) =
     [(Stdout, JSON, \<lparr>ev_level = InfoLevel,
         ev_fields = [Field ''a'' (Num 1), Field ''b'' (Str ''x''), TimeF], ev_message = ''m''\<rparr>)]"
    using emitted_enabled [OF s, of "[]" "''m''" "[]"]
    by (simp add: chained2_simps record_of_def stack_part_def err_part_def caller_part_def)
  from With_accumulates [OF a b refl, of MInfo "[]" "''m''" "[]"] e
  have "\<exists>rest. [Field ''a'' (Num 1), Field ''b'' (Str ''x''), TimeF] =
       map (\<lambda>(k, v). Field k v) (zl_context (loggers fresh_debug 1)) @
       [Field ''a'' (Num 1), Field ''b'' (Str ''x'')] @ rest"
    by simp
  with a b e show ?thesis by simp
qed

section \<open>Stack capture\<close>

text \<open>
  C6, as amended. Once the stack marshaler is installed (by init), a record written by an
  emission call has a stack field only if the call is Error and the stack-trace flag is
  set at the call, and then exactly when the error argument carries a stack trace or a
  value of the field list is an error; Debug, Info, Warn, Fatal and Panic records never
  have one. The stack field of the error argument comes right after the Logger's
  attached fields and right before the error field. The stack fields of error-valued
  fields are written with the field list, after the error field, each right after its
  field; nothing after the field list is a stack field.
\<close>

theorem stack_field_iff:
  assumes "ErrorStackMarshaler g \<noteq> None"
  shows "\<forall>(d, f, e) \<in> set (emitted g (fst (Logger_call m g cs l msg kvs))).
           ((\<exists>a \<in> set (ev_fields e). is_stack a) \<longleftrightarrow>
              (\<exists>err. m = MError err \<and> stacktraceEnabled g \<and>
                 ((\<exists>er st. err = Some er \<and> pkgerrors_MarshalStack er = Some st) \<or>
                  (\<exists>k er. (k, ErrV er) \<in> set (kv_pairs kvs))))) \<and>
           (\<forall>er st. m = MError (Some er) \<and> stacktraceEnabled g \<and>
                pkgerrors_MarshalStack er = Some st \<longrightarrow>
              (\<exists>rest. ev_fields e = map (\<lambda>(k, v). Field k v) (zl_context (loggers g l)) @
                                    StackF st # ErrF er # rest)) \<and>
           (\<exists>rest. ev_fields e =
                     map (\<lambda>(k, v). Field k v) (zl_context (loggers g l)) @ stack_part g m @
                     err_part m @ appendFieldList (stack_set g m) (kv_pairs kvs) @ rest \<and>
                   (\<forall>a \<in> set rest. \<not> is_stack a))"
proof (cases "should g (loggers g l) (severity m)")
  case True
  have b: "\<forall>er st. m = MError (Some er) \<and> stacktraceEnabled g \<and>
                pkgerrors_MarshalStack er = Some st \<longrightarrow>
              (\<exists>rest. ev_fields (record_of m g cs (loggers g l) msg kvs) =
                        map (\<lambda>(k, v). Field k v) (zl_context (loggers g l)) @
                        StackF st # ErrF er # rest)"
    using record_error_stack_first [OF assms, of m _ _ cs "loggers g l" msg kvs] by blast
  show ?thesis
    unfolding emitted_enabled [OF True]
    by (rule ball_deliveries)
       (intro conjI record_stack_iff [OF assms] b record_shape)
next
  case False
  then show ?thesis by (simp add: emitted_suppressed)
qed

theorem stack_field_iff_witness:
  "ErrorStackMarshaler traced \<noteq> None \<and>
   emitted traced
     (fst (Logger_call (MError (Some (fundamental ''boom'' [(''main.run'', 12)]))) traced [] 1 ''m''
             [Str ''cause'', ErrV (errorString ''inner'')])) =
     [(Stdout, JSON, \<lparr>ev_level = ErrorLevel,
         ev_fields = [StackF [(''main.run'', 12)], ErrF (fundamental ''boom'' [(''main.run'', 12)]),
                      Field ''cause'' (ErrV (errorString ''inner'')), StackKeyF, TimeF],
         ev_message = ''m''\<rparr>)] \<and>
   stacktraceEnabled traced \<and>
   pkgerrors_MarshalStack (fundamental ''boom'' [(''main.run'', 12)]) = Some [(''main.run'', 12)] \<and>
   (\<exists>a \<in> set [StackF [(''main.run'', 12)], ErrF (fundamental ''boom'' [(''main.run'', 12)]),
                Field ''cause'' (ErrV (errorString ''inner'')), StackKeyF, TimeF]. is_stack a) \<and>
   (\<exists>rest. [StackF [(''main.run'', 12)], ErrF (fundamental ''boom'' [(''main.run'', 12)]),
            Field ''cause'' (ErrV (errorString ''inner'')), StackKeyF, TimeF] =
        map (\<lambda>(k, v). Field k v) (zl_context (loggers traced 1)) @
        StackF [(''main.run'', 12)] # ErrF (fundamental ''boom'' [(''main.run'', 12)]) # rest)"
proof -
  let ?m = "MError (Some (fundamental ''boom'' [(''main.run'', 12)]))"
  let ?kvs = "[Str ''cause'', ErrV (errorString ''inner'')]"
  have a: "ErrorStackMarshaler traced \<noteq> None" by (simp add: traced_simps)
  have e: "emitted traced (fst (Logger_call ?m traced [] 1 ''m'' ?kvs)) =
     [(Stdout, JSON, \<lparr>ev_level = ErrorLevel,
         ev_fields = [StackF [(''main.run'', 12)], ErrF (fundamental ''boom'' [(''main.run'', 12)]),
                      Field ''cause'' (ErrV (errorString ''inner'')), StackKeyF, TimeF],
         ev_message = ''m''\<rparr>)]"
    using emitted_enabled [OF should_traced, of ?m "[]" "''m''" ?kvs]
    by (simp add: traced_simps record_of_def stack_part_def err_part_def caller_part_def
          stack_set_def)
  from stack_field_iff [OF a, of ?m "[]" 1 "''m''" ?kvs] e
  have "(\<exists>a \<in> set [StackF [(''main.run'', 12)], ErrF (fundamental ''boom'' [(''main.run'', 12)]),
                Field ''cause'' (ErrV (errorString ''inner'')), StackKeyF, TimeF]. is_stack a) \<and>
   (\<exists>rest. [StackF [(''main.run'', 12)], ErrF (fundamental ''boom'' [(''main.run'', 12)]),
            Field ''cause'' (ErrV (errorString ''inner'')), StackKeyF, TimeF] =
        map (\<lambda>(k, v). Field k v) (zl_context (loggers traced 1)) @
        StackF [(''main.run'', 12)] # ErrF (fundamental ''boom'' [(''main.run'', 12)]) # rest)"
    by (simp add: traced_simps)
  with a e show ?thesis by (simp add: traced_simps)
qed

text \<open>
  With the flag set, an Error call with a plain error, which carries no stack trace, and
  no fields writes a record with the error field and no stack field; with a
  field whose value is an error that carries a stack trace, it writes the stack field
  after the error field.
\<close>

theorem stack_field_plain_error_counterexample:
  "stacktraceEnabled traced \<and>
   emitted traced (fst (Logger_Error traced [] 1 (Some (errorString ''boom'')) ''m'' [])) =
     [(Stdout, JSON, \<lparr>ev_level = ErrorLevel, ev_fields = [ErrF (errorString ''boom''), TimeF],
         ev_message = ''m''\<rparr>)] \<and>
   emitted traced
     (fst (Logger_Error traced [] 1 (Some (errorString ''boom'')) ''m''
             [Str ''cause'', ErrV (fundamental ''inner'' [(''main.run'', 12)])])) =
     [(Stdout, JSON, \<lparr>ev_level = ErrorLevel,
         ev_fields = [ErrF (errorString ''boom''),
                      Field ''cause'' (ErrV (fundamental ''inner'' [(''main.run'', 12)])),
                      StackF [(''main.run'', 12)], TimeF],
         ev_message = ''m''\<rparr>)]"
  by (simp add: traced_simps Logger_Error_def zl_call_defs newEvent_def should_def level_defs
        word_sless_alt Event_Stack_def Event_Err_Some withFieldsAndCaller_Some Event_Msg_Some
        caller_part_def emitted_def)

section \<open>Caller annotation\<close>

text \<open>
  C7. With the caller flag set, a direct call of the method Info from the site
  (handler, 42), in a function called from (main, 7), writes a record whose caller field is
  (main, 7): three frames above the call of Caller is one frame above the call site of
  the method.
\<close>

theorem caller_of_direct_method_call:
  "callerEnabled annotated \<and>
   emitted annotated (fst (Logger_Info annotated [(''handler'', 42), (''main'', 7)] 1 ''m'' [])) =
     [(Stdout, JSON, \<lparr>ev_level = InfoLevel, ev_fields = [CallerF (''main'', 7), TimeF],
         ev_message = ''m''\<rparr>)]"
  by (simp add: annotated_simps Logger_Info_def zl_defs should_def event_defs emitted_def
        level_defs word_sless_alt Let_def)

text \<open>
  The same call through the package-level function, which adds one frame, has the call
  site itself as its caller field.
\<close>

lemma caller_of_package_call:
  "emitted annotated
     (fst (Info annotated [(''handler'', 42), (''main'', 7)] (ToContext annotated Background 1) ''m'' [])) =
     [(Stdout, JSON, \<lparr>ev_level = InfoLevel, ev_fields = [CallerF (''handler'', 42), TimeF],
         ev_message = ''m''\<rparr>)]"
  by (simp add: annotated_simps Info_def FromContext_def ToContext_def zl_WithContext_def
        zerolog_Ctx_def alloc_def Logger_Info_def zl_defs should_def event_defs emitted_def
        level_defs word_sless_alt Let_def)

text \<open>In general: the caller field of a method call is the second site of the caller's stack.\<close>

lemma caller_field_of_method_call:
  assumes "should g (loggers g l) (severity m)"
  shows "\<forall>(d, f, e) \<in> set (emitted g (fst (Logger_call m g cs l msg kvs))).
           filter is_caller (ev_fields e) =
             (if callerEnabled g \<and> 2 \<le> length cs then [CallerF (cs ! 1)] else [])"
proof -
  have f: "filter is_caller (map (\<lambda>(k, v). Field k v) xs) = []"
    for xs :: "(string \<times> iface) list"
    by (induction xs) auto
  have h: "filter is_caller (map (\<lambda>h. TimeF) hs) = []" for hs :: "hook list"
    by (induction hs) auto
  have s: "filter is_caller (stack_part g m) = []"
    using stack_part_cases [of g m] by auto
  have e: "filter is_caller (err_part m) = []"
    by (cases m) (simp_all add: err_part_def split: option.splits)
  have c: "filter is_caller (caller_part g cs) =
             (if callerEnabled g \<and> 2 \<le> length cs then [CallerF (cs ! 1)] else [])"
    by (cases "callerEnabled g"; cases cs; cases "tl cs") (simp_all add: caller_part_def)
  show ?thesis
    by (simp add: emitted_enabled [OF assms] record_of_def f h s e c split_beta
          no_caller_in_appendFieldList)
qed

section \<open>The default logger\<close>

text \<open>
  C8. The default context logger that init installs has level ErrorLevel and writes to
  standard output. In a state that still has it, FromContext on a context with no Logger
  bound anywhere in its chain returns a Logger whose underlying logger is that default,
  and the Logger is safe to use: every emission call on it writes the same records and
  ends the same way as on a Logger built by New(ErrorLevel); Debug, Info and Warn
  return without writing, Error returns, and no call panics other than the Panic method,
  whose panic is how that method ends on every Logger.
\<close>

theorem default_logger:
  assumes "ctx_Value c = None"
      and "DefaultContextLogger g = DefaultContextLogger (init g0)"
  shows "DefaultContextLogger (init g0) =
           Some \<lparr>zl_w = Out Stdout, zl_level = ErrorLevel, zl_context = [], zl_hooks = [timestampHook]\<rparr> \<and>
         loggers (fst (FromContext g c)) (snd (FromContext g c)) =
           \<lparr>zl_w = Out Stdout, zl_level = ErrorLevel, zl_context = [], zl_hooks = [timestampHook]\<rparr> \<and>
         emitted (fst (FromContext g c))
           (fst (Logger_call m (fst (FromContext g c)) cs (snd (FromContext g c)) msg kvs)) =
           emitted (fst (New g ErrorLevel []))
             (fst (Logger_call m (fst (New g ErrorLevel [])) cs (snd (New g ErrorLevel [])) msg kvs)) \<and>
         snd (Logger_call m (fst (FromContext g c)) cs (snd (FromContext g c)) msg kvs) =
           snd (Logger_call m (fst (New g ErrorLevel [])) cs (snd (New g ErrorLevel [])) msg kvs) \<and>
         (m = MDebug \<or> m = MInfo \<or> m = MWarn \<longrightarrow>
            Logger_call m (fst (FromContext g c)) cs (snd (FromContext g c)) msg kvs =
              (fst (FromContext g c), Returned)) \<and>
         (\<forall>err. m = MError err \<longrightarrow>
            snd (Logger_call m (fst (FromContext g c)) cs (snd (FromContext g c)) msg kvs) = Returned) \<and>
         (\<forall>p. snd (Logger_call m (fst (FromContext g c)) cs (snd (FromContext g c)) msg kvs) = Panicked p
              \<longrightarrow> m = MPanic)"
proof -
  let ?d = "\<lparr>zl_w = Out Stdout, zl_level = ErrorLevel, zl_context = [], zl_hooks = [timestampHook]\<rparr>"
  let ?g1 = "fst (FromContext g c)" and ?l1 = "snd (FromContext g c)"
  let ?gN = "fst (New g ErrorLevel [])" and ?lN = "snd (New g ErrorLevel [])"
  have i: "DefaultContextLogger (init g0) = Some ?d" by (rule init_default)
  with assms(2) have d: "DefaultContextLogger g = Some ?d" by simp
  have l: "loggers ?g1 ?l1 = ?d"
    by (rule FromContext_default(1) [OF assms(1) d])
  have n: "loggers ?gN ?lN = ?d" "gLevel ?gN = gLevel g" "stacktraceEnabled ?gN = stacktraceEnabled g"
    "callerEnabled ?gN = callerEnabled g" "ErrorStackMarshaler ?gN = ErrorStackMarshaler g"
    by (simp_all add: New_def alloc_def Let_def logger_defs)
  have f: "gLevel ?g1 = gLevel g" "stacktraceEnabled ?g1 = stacktraceEnabled g"
    "callerEnabled ?g1 = callerEnabled g" "ErrorStackMarshaler ?g1 = ErrorStackMarshaler g"
    by (simp_all add: FromContext_def alloc_def)
  have e: "emitted ?g1 (fst (Logger_call m ?g1 cs ?l1 msg kvs)) =
           emitted ?gN (fst (Logger_call m ?gN cs ?lN msg kvs))"
    by (rule Logger_call_cong(1)) (simp_all add: l n f)
  have o: "snd (Logger_call m ?g1 cs ?l1 msg kvs) = snd (Logger_call m ?gN cs ?lN msg kvs)"
    by (rule Logger_call_cong(2)) (simp_all add: l n f)
  have q: "Logger_call m ?g1 cs ?l1 msg kvs = (?g1, Returned)"
    if "m = MDebug \<or> m = MInfo \<or> m = MWarn"
  proof -
    from that have "\<not> should ?g1 (loggers ?g1 ?l1) (severity m)"
      unfolding l by (auto simp: should_def level_defs word_sless_alt)
    then have "fst (Logger_call m ?g1 cs ?l1 msg kvs) = ?g1"
      by (rule Logger_call_suppressed)
    moreover from that have "snd (Logger_call m ?g1 cs ?l1 msg kvs) = Returned"
      unfolding Logger_call_outcome by auto
    ultimately show ?thesis by (simp add: prod_eq_iff)
  qed
  have r: "\<forall>err. m = MError err \<longrightarrow> snd (Logger_call m ?g1 cs ?l1 msg kvs) = Returned"
    unfolding Logger_call_outcome by auto
  have p: "\<forall>p. snd (Logger_call m ?g1 cs ?l1 msg kvs) = Panicked p \<longrightarrow> m = MPanic"
    unfolding Logger_call_outcome by (cases m) simp_all
  from i l e o q r p show ?thesis by blast
qed

theorem default_logger_witness:
  "ctx_Value (WithOther Background) = None \<and>
   DefaultContextLogger fresh_debug = DefaultContextLogger (init start) \<and>
   loggers (fst (FromContext fresh_debug (WithOther Background)))
           (snd (FromContext fresh_debug (WithOther Background))) =
     \<lparr>zl_w = Out Stdout, zl_level = ErrorLevel, zl_context = [], zl_hooks = [timestampHook]\<rparr> \<and>
   Logger_call MInfo (fst (FromContext fresh_debug (WithOther Background))) []
          (snd (FromContext fresh_debug (WithOther Background))) ''m'' [] =
     (fst (FromContext fresh_debug (WithOther Background)), Returned) \<and>
   snd (Logger_call (MError None) (fst (FromContext fresh_debug (WithOther Background))) []
          (snd (FromContext fresh_debug (WithOther Background))) ''m'' []) = Returned"
proof -
  have a: "ctx_Value (WithOther Background) = None" by simp
  have b: "DefaultContextLogger fresh_debug = DefaultContextLogger (init start)"
    by (simp add: fresh_debug_simps init_default)
  from default_logger [OF a b, of MInfo "[]" "''m''" "[]"]
  have 1: "loggers (fst (FromContext fresh_debug (WithOther Background)))
                   (snd (FromContext fresh_debug (WithOther Background))) =
             \<lparr>zl_w = Out Stdout, zl_level = ErrorLevel, zl_context = [], zl_hooks = [timestampHook]\<rparr> \<and>
           Logger_call MInfo (fst (FromContext fresh_debug (WithOther Background))) []
                  (snd (FromContext fresh_debug (WithOther Background))) ''m'' [] =
             (fst (FromContext fresh_debug (WithOther Background)), Returned)"
    by blast
  from default_logger [OF a b, of "MError None" "[]" "''m''" "[]"]
  have 2: "snd (Logger_call (MError None) (fst (FromContext fresh_debug (WithOther Background))) []
          (snd (FromContext fresh_debug (WithOther Background))) ''m'' []) = Returned"
    by blast
  from a b 1 2 show ?thesis by blast
qed

section \<open>Package-level functions\<close>

text \<open>
  C9. With the caller flag set, the package-level function Info and the method Info on the
  Logger that FromContext returns for the same context, called from the same site
  (handler, 42), in a function called from (main, 7), with the same arguments, write
  different records: the caller field is (handler, 42) for the function and (main, 7) for
  the method.
\<close>

theorem package_call_differs_from_method_call:
  "callerEnabled annotated \<and>
   emitted annotated
     (fst (Info annotated [(''handler'', 42), (''main'', 7)] (ToContext annotated Background 1) ''m'' [])) =
     [(Stdout, JSON, \<lparr>ev_level = InfoLevel, ev_fields = [CallerF (''handler'', 42), TimeF],
         ev_message = ''m''\<rparr>)] \<and>
   emitted (fst (FromContext annotated (ToContext annotated Background 1)))
     (fst (Logger_Info (fst (FromContext annotated (ToContext annotated Background 1)))
             [(''handler'', 42), (''main'', 7)]
             (snd (FromContext annotated (ToContext annotated Background 1))) ''m'' [])) =
     [(Stdout, JSON, \<lparr>ev_level = InfoLevel, ev_fields = [CallerF (''main'', 7), TimeF],
         ev_message = ''m''\<rparr>)]"
  by (simp add: annotated_simps Info_def FromContext_def ToContext_def zl_WithContext_def
        zerolog_Ctx_def alloc_def Logger_Info_def zl_call_defs newEvent_def should_def
        withFieldsAndCaller_Some Event_Msg_Some caller_part_def emitted_def
        level_defs word_sless_alt Let_def)

text \<open>
  Each package-level function is the method called on the Logger from FromContext, from
  the frame of the function itself.
\<close>

lemma package_functions_unfold:
  "Debug g cs c msg kvs =
     Logger_Debug (fst (FromContext g c)) ((''Debug'', 119) # cs) (snd (FromContext g c)) msg kvs"
  "Info g cs c msg kvs =
     Logger_Info (fst (FromContext g c)) ((''Info'', 123) # cs) (snd (FromContext g c)) msg kvs"
  "Warn g cs c msg kvs =
     Logger_Warn (fst (FromContext g c)) ((''Warn'', 127) # cs) (snd (FromContext g c)) msg kvs"
  "Error g cs c err msg kvs =
     Logger_Error (fst (FromContext g c)) ((''Error'', 131) # cs) (snd (FromContext g c)) err msg kvs"
  "Fatal g cs c msg kvs =
     Logger_Fatal (fst (FromContext g c)) ((''Fatal'', 135) # cs) (snd (FromContext g c)) msg kvs"
  "Panic g cs c msg kvs =
     Logger_Panic (fst (FromContext g c)) ((''Panic'', 139) # cs) (snd (FromContext g c)) msg kvs"
  by (simp_all add: Debug_def Info_def Warn_def Error_def Fatal_def Panic_def split_beta)

text \<open>
  With the caller flag off, a package-level function and the method on the Logger from
  FromContext, called from the same site, give the same result.
\<close>

lemma package_functions_without_caller_flag:
  assumes "\<not> callerEnabled g"
  shows "Debug g cs c msg kvs =
           Logger_call MDebug (fst (FromContext g c)) cs (snd (FromContext g c)) msg kvs"
    and "Info g cs c msg kvs =
           Logger_call MInfo (fst (FromContext g c)) cs (snd (FromContext g c)) msg kvs"
    and "Warn g cs c msg kvs =
           Logger_call MWarn (fst (FromContext g c)) cs (snd (FromContext g c)) msg kvs"
    and "Error g cs c err msg kvs =
           Logger_call (MError err) (fst (FromContext g c)) cs (snd (FromContext g c)) msg kvs"
    and "Fatal g cs c msg kvs =
           Logger_call MFatal (fst (FromContext g c)) cs (snd (FromContext g c)) msg kvs"
    and "Panic g cs c msg kvs =
           Logger_call MPanic (fst (FromContext g c)) cs (snd (FromContext g c)) msg kvs"
proof -
  from assms have n: "\<not> callerEnabled (fst (FromContext g c))"
    by (simp add: FromContext_def alloc_def)
  show "Debug g cs c msg kvs =
           Logger_call MDebug (fst (FromContext g c)) cs (snd (FromContext g c)) msg kvs"
    using Logger_call_stack_irrelevant [OF n, of MDebug "(''Debug'', 119) # cs" _ msg kvs cs]
    by (simp add: package_functions_unfold)
  show "Info g cs c msg kvs =
           Logger_call MInfo (fst (FromContext g c)) cs (snd (FromContext g c)) msg kvs"
    using Logger_call_stack_irrelevant [OF n, of MInfo "(''Info'', 123) # cs" _ msg kvs cs]
    by (simp add: package_functions_unfold)
  show "Warn g cs c msg kvs =
           Logger_call MWarn (fst (FromContext g c)) cs (snd (FromContext g c)) msg kvs"
    using Logger_call_stack_irrelevant [OF n, of MWarn "(''Warn'', 127) # cs" _ msg kvs cs]
    by (simp add: package_functions_unfold)
  show "Error g cs c err msg kvs =
           Logger_call (MError err) (fst (FromContext g c)) cs (snd (FromContext g c)) msg kvs"
    using Logger_call_stack_irrelevant [OF n, of "MError err" "(''Error'', 131) # cs" _ msg kvs cs]
    by (simp add: package_functions_unfold)
  show "Fatal g cs c msg kvs =
           Logger_call MFatal (fst (FromContext g c)) cs (snd (FromContext g c)) msg kvs"
    using Logger_call_stack_irrelevant [OF n, of MFatal "(''Fatal'', 135) # cs" _ msg kvs cs]
    by (simp add: package_functions_unfold)
  show "Panic g cs c msg kvs =
           Logger_call MPanic (fst (FromContext g c)) cs (snd (FromContext g c)) msg kvs"
    using Logger_call_stack_irrelevant [OF n, of MPanic "(''Panic'', 139) # cs" _ msg kvs cs]
    by (simp add: package_functions_unfold)
qed

section \<open>Binding to a context\<close>

text \<open>
  C10, as amended. For every context and every Logger l whose level is not the library's
  Disabled level, or when the context already has a Logger bound, the context returned by
  ToContext has the underlying logger of l as its innermost binding, and FromContext on
  it, in any later state, returns a Logger with that underlying logger. For a Logger at
  level Disabled and a context with no Logger bound, ToContext returns the context
  unchanged, and FromContext on it, in any later state, returns a Logger with the
  default context logger of that state.
\<close>

theorem context_roundtrip:
  "(zl_level (loggers g l) \<noteq> Disabled \<or> ctx_Value c \<noteq> None \<longrightarrow>
      ctx_Value (ToContext g c l) = Some (loggers g l) \<and>
      loggers (fst (FromContext g' (ToContext g c l))) (snd (FromContext g' (ToContext g c l))) =
        loggers g l) \<and>
   (zl_level (loggers g l) = Disabled \<and> ctx_Value c = None \<longrightarrow>
      ToContext g c l = c \<and>
      (\<forall>d. DefaultContextLogger g' = Some d \<longrightarrow>
         loggers (fst (FromContext g' (ToContext g c l))) (snd (FromContext g' (ToContext g c l))) = d))"
  by (auto simp: ToContext_def zl_WithContext_def FromContext_def zerolog_Ctx_def alloc_def)

theorem context_roundtrip_witness:
  "zl_level (loggers fresh_debug 1) \<noteq> Disabled \<and>
   ToContext fresh_debug Background 0 = WithLogger Background (loggers fresh_debug 0) \<and>
   ctx_Value (ToContext fresh_debug (ToContext fresh_debug Background 0) 1) =
     Some (loggers fresh_debug 1) \<and>
   loggers (fst (FromContext fresh_debug (ToContext fresh_debug (ToContext fresh_debug Background 0) 1)))
           (snd (FromContext fresh_debug (ToContext fresh_debug (ToContext fresh_debug Background 0) 1))) =
     loggers fresh_debug 1 \<and>
   zl_level (loggers muted 1) = Disabled \<and> ctx_Value Background = None \<and>
   ToContext muted Background 1 = Background \<and>
   DefaultContextLogger muted =
     Some \<lparr>zl_w = Out Stdout, zl_level = ErrorLevel, zl_context = [], zl_hooks = [timestampHook]\<rparr> \<and>
   loggers (fst (FromContext muted (ToContext muted Background 1)))
           (snd (FromContext muted (ToContext muted Background 1))) =
     \<lparr>zl_w = Out Stdout, zl_level = ErrorLevel, zl_context = [], zl_hooks = [timestampHook]\<rparr>"
proof -
  have a: "zl_level (loggers fresh_debug 1) \<noteq> Disabled"
    by (simp add: fresh_debug_simps level_defs)
  have b: "ToContext fresh_debug Background 0 = WithLogger Background (loggers fresh_debug 0)"
    by (simp add: ToContext_def zl_WithContext_def fresh_debug_simps level_defs)
  have c: "zl_level (loggers muted 1) = Disabled" "ctx_Value Background = None"
    by (simp_all add: muted_simps)
  have d: "DefaultContextLogger muted =
     Some \<lparr>zl_w = Out Stdout, zl_level = ErrorLevel, zl_context = [], zl_hooks = [timestampHook]\<rparr>"
    by (simp add: muted_simps)
  from context_roundtrip [of fresh_debug 1 "ToContext fresh_debug Background 0" fresh_debug] a
  have 1: "ctx_Value (ToContext fresh_debug (ToContext fresh_debug Background 0) 1) =
             Some (loggers fresh_debug 1) \<and>
           loggers (fst (FromContext fresh_debug (ToContext fresh_debug (ToContext fresh_debug Background 0) 1)))
             (snd (FromContext fresh_debug (ToContext fresh_debug (ToContext fresh_debug Background 0) 1))) =
           loggers fresh_debug 1"
    by blast
  from context_roundtrip [of muted 1 Background muted] c d
  have 2: "ToContext muted Background 1 = Background \<and>
           loggers (fst (FromContext muted (ToContext muted Background 1)))
             (snd (FromContext muted (ToContext muted Background 1))) =
           \<lparr>zl_w = Out Stdout, zl_level = ErrorLevel, zl_context = [], zl_hooks = [timestampHook]\<rparr>"
    by blast
  from a b c d 1 2 show ?thesis by blast
qed

text \<open>
  For a Logger at level Disabled and the background context, ToContext returns the
  context unchanged and FromContext then returns the default logger, at ErrorLevel.
\<close>

theorem context_roundtrip_disabled_counterexample:
  "ToContext muted Background 1 = Background \<and>
   zl_level (loggers (fst (FromContext muted (ToContext muted Background 1)))
                     (snd (FromContext muted (ToContext muted Background 1)))) = ErrorLevel \<and>
   zl_level (loggers muted 1) = Disabled \<and>
   loggers (fst (FromContext muted (ToContext muted Background 1)))
           (snd (FromContext muted (ToContext muted Background 1))) \<noteq> loggers muted 1"
proof -
  have a: "ToContext muted Background 1 = Background"
    by (simp add: ToContext_def zl_WithContext_def muted_simps)
  have b: "loggers (fst (FromContext muted Background)) (snd (FromContext muted Background)) =
     \<lparr>zl_w = Out Stdout, zl_level = ErrorLevel, zl_context = [], zl_hooks = [timestampHook]\<rparr>"
    by (simp add: FromContext_def zerolog_Ctx_def alloc_def muted_simps)
  have c: "loggers muted 1 = \<lparr>zl_w = Out Stdout, zl_level = Disabled, zl_context = [], zl_hooks = [timestampHook]\<rparr>"
    by (simp add: muted_simps)
  show ?thesis unfolding a b c by (simp add: level_defs)
qed

end
